theory Spec2Isabelle
  imports Complex_Main "HOL-Library.Sublist" "HOL-Library.AList"
begin

section \<open>Result extraction and report formatting of the GPC automation scripts\<close>

text \<open>
  The development embeds \<^verbatim>\<open>extract_peak_results\<close>,
  \<^verbatim>\<open>format_value_with_uncertainty\<close> and the summary part of
  \<^verbatim>\<open>display_and_save_results\<close> of \<^verbatim>\<open>enhanced_gpc_automation_v2.py\<close>
  (the other scripts carry near-verbatim copies; where a copy differs, the difference is
  modelled under its own name).

  Python strings are modelled as \<^typ>\<open>string\<close>: a text is a list of code points below 256.
  Python exceptions are values of \<open>py_error\<close>, Python floats are values of \<open>pyfloat\<close>
  (the rational number a binary64 value denotes, with its sign, or an infinity, or NaN),
  a Python \<^verbatim>\<open>dict\<close> is an association list in insertion order.
\<close>

subsection \<open>Strings\<close>

definition dq :: char where
  "dq = CHR 0x22"

definition nl :: char where
  "nl = CHR 0x0A"

text \<open>\<^verbatim>\<open>str.isspace\<close> on one character, for the code points below 256.\<close>

definition py_isspace :: "char \<Rightarrow> bool" where
  "py_isspace c = (let n = (of_char c :: nat) in
      (9 \<le> n \<and> n \<le> 13) \<or> (28 \<le> n \<and> n \<le> 32) \<or> n = 133 \<or> n = 160)"

text \<open>\<^verbatim>\<open>s.strip()\<close>\<close>

definition strip :: "string \<Rightarrow> string" where
  "strip s = rev (dropWhile py_isspace (rev (dropWhile py_isspace s)))"

text \<open>\<^verbatim>\<open>s.split('\n')\<close>: never empty, one more piece than there are newlines.\<close>

primrec split_nl :: "string \<Rightarrow> string list" where
  "split_nl [] = [[]]"
| "split_nl (c # cs) =
     (if c = nl then [] # split_nl cs
      else (case split_nl cs of [] \<Rightarrow> [[c]] | l # ls \<Rightarrow> (c # l) # ls))"

text \<open>\<^verbatim>\<open>sub in s\<close> on strings.\<close>

primrec contains :: "string \<Rightarrow> string \<Rightarrow> bool" where
  "contains sub [] = (sub = [])"
| "contains sub (c # cs) = (prefix sub (c # cs) \<or> contains sub cs)"

definition is_digit :: "char \<Rightarrow> bool" where
  "is_digit c = (let n = (of_char c :: nat) in 48 \<le> n \<and> n \<le> 57)"

definition digit_val :: "char \<Rightarrow> int" where
  "digit_val c = of_char c - 48"

text \<open>The number a string of decimal digits denotes.\<close>

definition digits_value :: "string \<Rightarrow> int" where
  "digits_value ds = foldl (\<lambda>n c. 10 * n + digit_val c) 0 ds"

subsection \<open>The regular expressions of the scanner\<close>

text \<open>
  The patterns of the source use four constructs only: a literal, the lazy wildcard
  \<^verbatim>\<open>.*?\<close>, the captured lazy wildcard \<^verbatim>\<open>(.+?)\<close>, and a captured greedy
  repetition of a character class (\<^verbatim>\<open>([^"]*)\<close>, \<^verbatim>\<open>([^<]*)\<close>, \<^verbatim>\<open>(\d+)\<close>).
  A pattern is the list of its items. The matcher is the backtracking matcher of
  \<^verbatim>\<open>re\<close>: alternatives are tried in priority order (lazy: shortest first, greedy:
  longest first) and the first complete match wins. The wildcard does not match a newline.
\<close>

datatype rx_item =
    Lit string
  | LazyAny
  | LazyCap1
  | Grp "char \<Rightarrow> bool" nat

primrec lazy_any :: "(string \<Rightarrow> 'a option) \<Rightarrow> string \<Rightarrow> 'a option" where
  "lazy_any k [] = k []"
| "lazy_any k (c # cs) =
     (case k (c # cs) of Some r \<Rightarrow> Some r
      | None \<Rightarrow> if c = nl then None else lazy_any k cs)"

primrec lazy_cap :: "(string \<Rightarrow> string \<Rightarrow> 'a option) \<Rightarrow> string \<Rightarrow> string \<Rightarrow> 'a option" where
  "lazy_cap k acc [] = k acc []"
| "lazy_cap k acc (c # cs) =
     (case k acc (c # cs) of Some r \<Rightarrow> Some r
      | None \<Rightarrow> if c = nl then None else lazy_cap k (acc @ [c]) cs)"

primrec try_down :: "(nat \<Rightarrow> 'a option) \<Rightarrow> nat \<Rightarrow> 'a option" where
  "try_down f 0 = f 0"
| "try_down f (Suc n) = (case f (Suc n) of Some r \<Rightarrow> Some r | None \<Rightarrow> try_down f n)"

definition greedy_cap ::
  "(char \<Rightarrow> bool) \<Rightarrow> nat \<Rightarrow> (string \<Rightarrow> string \<Rightarrow> 'a option) \<Rightarrow> string \<Rightarrow> 'a option" where
  "greedy_cap cls mn k s =
     try_down (\<lambda>n. if n < mn then None else k (take n s) (drop n s))
       (length (takeWhile cls s))"

text \<open>\<open>rx_match items caps s\<close>: match the items at the start of \<open>s\<close>; the result is the
  list of captured groups, \<open>caps\<close> followed by the groups of \<open>items\<close>.\<close>

primrec rx_match :: "rx_item list \<Rightarrow> string list \<Rightarrow> string \<Rightarrow> string list option" where
  "rx_match [] = (\<lambda>caps s. Some caps)"
| "rx_match (a # r) = (\<lambda>caps s.
     case a of
       Lit l \<Rightarrow> if prefix l s then rx_match r caps (drop (length l) s) else None
     | LazyAny \<Rightarrow> lazy_any (rx_match r caps) s
     | LazyCap1 \<Rightarrow>
         (case s of [] \<Rightarrow> None
          | c # cs \<Rightarrow> if c = nl then None
                     else lazy_cap (\<lambda>g. rx_match r (caps @ [g])) [c] cs)
     | Grp cls mn \<Rightarrow> greedy_cap cls mn (\<lambda>g. rx_match r (caps @ [g])) s)"

text \<open>\<^verbatim>\<open>re.search\<close>: the leftmost start position that has a match.\<close>

primrec re_search :: "rx_item list \<Rightarrow> string \<Rightarrow> string list option" where
  "re_search items [] = rx_match items [] []"
| "re_search items (c # cs) =
     (case rx_match items [] (c # cs) of Some r \<Rightarrow> Some r | None \<Rightarrow> re_search items cs)"

definition attr_open :: "string \<Rightarrow> string" where
  "attr_open k = k @ ''='' @ [dq]"

definition not_dq :: "char \<Rightarrow> bool" where
  "not_dq c = (c \<noteq> dq)"

definition not_lt :: "char \<Rightarrow> bool" where
  "not_lt c = (c \<noteq> CHR ''<'')"

text \<open>\<^verbatim>\<open><name>(.+?)</name>\<close>\<close>

definition rx_name :: "rx_item list" where
  "rx_name = [Lit ''<name>'', LazyCap1, Lit ''</name>'']"

text \<open>\<^verbatim>\<open><scalar.*?units="([^"]*)".*?uncertainty="([^"]*)".*?peak="(\d+)".*?>([^<]*)</scalar>\<close>\<close>

definition rx_units_unc_peak :: "rx_item list" where
  "rx_units_unc_peak =
     [Lit ''<scalar'', LazyAny, Lit (attr_open ''units''), Grp not_dq 0, Lit [dq],
      LazyAny, Lit (attr_open ''uncertainty''), Grp not_dq 0, Lit [dq],
      LazyAny, Lit (attr_open ''peak''), Grp is_digit 1, Lit [dq],
      LazyAny, Lit ''>'', Grp not_lt 0, Lit ''</scalar>'']"

text \<open>\<^verbatim>\<open><scalar.*?units="([^"]*)".*?peak="(\d+)".*?uncertainty="([^"]*)".*?>([^<]*)</scalar>\<close>\<close>

definition rx_units_peak_unc :: "rx_item list" where
  "rx_units_peak_unc =
     [Lit ''<scalar'', LazyAny, Lit (attr_open ''units''), Grp not_dq 0, Lit [dq],
      LazyAny, Lit (attr_open ''peak''), Grp is_digit 1, Lit [dq],
      LazyAny, Lit (attr_open ''uncertainty''), Grp not_dq 0, Lit [dq],
      LazyAny, Lit ''>'', Grp not_lt 0, Lit ''</scalar>'']"

text \<open>\<^verbatim>\<open><scalar.*?uncertainty="([^"]*)".*?peak="(\d+)".*?>([^<]*)</scalar>\<close>\<close>

definition rx_unc_peak :: "rx_item list" where
  "rx_unc_peak =
     [Lit ''<scalar'', LazyAny, Lit (attr_open ''uncertainty''), Grp not_dq 0, Lit [dq],
      LazyAny, Lit (attr_open ''peak''), Grp is_digit 1, Lit [dq],
      LazyAny, Lit ''>'', Grp not_lt 0, Lit ''</scalar>'']"

text \<open>\<^verbatim>\<open><scalar.*?peak="(\d+)".*?uncertainty="([^"]*)".*?>([^<]*)</scalar>\<close>\<close>

definition rx_peak_unc :: "rx_item list" where
  "rx_peak_unc =
     [Lit ''<scalar'', LazyAny, Lit (attr_open ''peak''), Grp is_digit 1, Lit [dq],
      LazyAny, Lit (attr_open ''uncertainty''), Grp not_dq 0, Lit [dq],
      LazyAny, Lit ''>'', Grp not_lt 0, Lit ''</scalar>'']"


subsection \<open>Exceptions\<close>

datatype py_error = ValueError | ZeroDivisionError

subsection \<open>Floats\<close>

text \<open>
  A Python float is an IEEE 754 binary64 value. \<open>Fin neg n k\<close> is the finite value of
  sign \<open>neg\<close> and magnitude \<open>n / 2 ^ k\<close>, with \<open>0 \<le> n\<close> and the fraction reduced
  (\<open>k = 0\<close> or \<open>n\<close> odd), so \<open>Fin False 15000 0\<close> is \<^verbatim>\<open>15000.0\<close>,
  \<open>Fin False 1 1\<close> is \<^verbatim>\<open>0.5\<close> and \<open>Fin True 0 0\<close> is the negative zero;
  \<open>Inf neg\<close> is an infinity and \<open>NaN\<close> a not-a-number. Every operation rounds its exact
  result to the nearest binary64 value, ties to the even significand, and overflows to an
  infinity. All arithmetic is on integers: an exact non-negative result is handed to the
  rounding as a fraction \<open>p / q\<close> with \<open>0 \<le> p\<close> and \<open>0 < q\<close>.
\<close>

datatype pyfloat = Fin bool int nat | Inf bool | NaN

function bit_length :: "int \<Rightarrow> nat" where
  "bit_length n = (if n \<le> 0 then 0 else Suc (bit_length (n div 2)))"
  by pat_completeness auto
termination
  by (relation "measure nat") auto

declare bit_length.simps [simp del]

definition pow2i :: "int \<Rightarrow> int" where
  "pow2i e = (if 0 \<le> e then 2 ^ nat e else 1)"

definition pow10i :: "int \<Rightarrow> int" where
  "pow10i e = (if 0 \<le> e then 10 ^ nat e else 1)"

text \<open>The floor of the binary logarithm of \<open>p / q\<close>, for \<open>0 < p\<close> and \<open>0 < q\<close>.\<close>

definition floor_log2 :: "int \<Rightarrow> int \<Rightarrow> int" where
  "floor_log2 p q =
     (let d = int (bit_length p) - int (bit_length q)
      in if q * pow2i d \<le> p * pow2i (- d) then d else d - 1)"

text \<open>\<open>p / q\<close> rounded to the nearest integer, a tie to the even one.\<close>

definition round_half_even :: "int \<Rightarrow> int \<Rightarrow> int" where
  "round_half_even p q =
     (let f = p div q; r = p mod q
      in if 2 * r < q then f else if q < 2 * r then f + 1
         else if even f then f else f + 1)"

fun reduce :: "int \<Rightarrow> nat \<Rightarrow> int \<times> nat" where
  "reduce n k = (if k = 0 \<or> odd n then (n, k) else reduce (n div 2) (k - 1))"

declare reduce.simps [simp del]

text \<open>The value \<open>n * 2 ^ s\<close> as a float.\<close>

definition dyadic :: "bool \<Rightarrow> int \<Rightarrow> int \<Rightarrow> pyfloat" where
  "dyadic neg n s =
     (if 0 \<le> s then Fin neg (n * pow2i s) 0
      else (case reduce n (nat (- s)) of (m, k) \<Rightarrow> Fin neg m k))"

text \<open>Rounding of \<open>p / q\<close> to binary64: 53 significant bits, least exponent \<open>-1022\<close>
  (below it the spacing stays \<open>2^-1074\<close>), overflow from \<open>2^1024\<close> on.\<close>

definition round_double :: "bool \<Rightarrow> int \<Rightarrow> int \<Rightarrow> pyfloat" where
  "round_double neg p q =
     (if p = 0 then Fin neg 0 0
      else let e = max (floor_log2 p q) (- 1022);
               s = e - 52;
               n = round_half_even (p * pow2i (- s)) (q * pow2i s)
           in if 0 \<le> s \<and> 2 ^ 1024 \<le> n * pow2i s then Inf neg else dyadic neg n s)"

definition is_zero :: "pyfloat \<Rightarrow> bool" where
  "is_zero x = (case x of Fin neg n k \<Rightarrow> n = 0 | _ \<Rightarrow> False)"

text \<open>\<^verbatim>\<open>a / b\<close> on floats: a zero divisor raises, whatever the dividend.\<close>

fun float_quot :: "pyfloat \<Rightarrow> pyfloat \<Rightarrow> pyfloat" where
  "float_quot NaN b = NaN"
| "float_quot a NaN = NaN"
| "float_quot (Inf s) (Inf t) = NaN"
| "float_quot (Inf s) (Fin t n k) = Inf (s \<noteq> t)"
| "float_quot (Fin s m j) (Inf t) = Fin (s \<noteq> t) 0 0"
| "float_quot (Fin s m j) (Fin t n k) = round_double (s \<noteq> t) (m * 2 ^ k) (n * 2 ^ j)"

definition float_div :: "pyfloat \<Rightarrow> pyfloat \<Rightarrow> py_error + pyfloat" where
  "float_div a b = (if is_zero b then Inl ZeroDivisionError else Inr (float_quot a b))"

text \<open>\<^verbatim>\<open>a * b\<close> on floats; it never raises.\<close>

fun float_mul :: "pyfloat \<Rightarrow> pyfloat \<Rightarrow> pyfloat" where
  "float_mul NaN b = NaN"
| "float_mul a NaN = NaN"
| "float_mul (Inf s) (Inf t) = Inf (s \<noteq> t)"
| "float_mul (Inf s) (Fin t n k) = (if n = 0 then NaN else Inf (s \<noteq> t))"
| "float_mul (Fin s m j) (Inf t) = (if m = 0 then NaN else Inf (s \<noteq> t))"
| "float_mul (Fin s m j) (Fin t n k) = round_double (s \<noteq> t) (m * n) (2 ^ (j + k))"

text \<open>\<^verbatim>\<open>a >= b\<close> on floats; false when either side is NaN.\<close>

definition signed :: "bool \<Rightarrow> int \<Rightarrow> int" where
  "signed neg n = (if neg then - n else n)"

fun float_ge :: "pyfloat \<Rightarrow> pyfloat \<Rightarrow> bool" where
  "float_ge NaN b = False"
| "float_ge a NaN = False"
| "float_ge (Inf s) (Inf t) = (\<not> s \<or> t)"
| "float_ge (Inf s) (Fin t n k) = (\<not> s)"
| "float_ge (Fin s m j) (Inf t) = t"
| "float_ge (Fin s m j) (Fin t n k) = (signed t n * 2 ^ j \<le> signed s m * 2 ^ k)"

text \<open>The float of a non-negative integer literal such as \<^verbatim>\<open>100\<close> or \<^verbatim>\<open>1000\<close>.\<close>

definition float_of_nat :: "nat \<Rightarrow> pyfloat" where
  "float_of_nat n = round_double False (int n) 1"

subsubsection \<open>\<^verbatim>\<open>float(s)\<close>\<close>

text \<open>
  The argument is stripped of surrounding whitespace (of the control characters only tab,
  newline, vertical tab, form feed and carriage return count here). Underscores may stand
  between two digits only and are dropped. What remains is an optional sign followed by
  \<^verbatim>\<open>inf\<close>, \<^verbatim>\<open>infinity\<close> or \<^verbatim>\<open>nan\<close> in any letter case, or by a decimal
  numeral: digits with an optional point, at least one digit, and an optional exponent
  \<^verbatim>\<open>e\<close> or \<^verbatim>\<open>E\<close> with an optional sign and at least one digit. Everything else
  raises \<^verbatim>\<open>ValueError\<close>. The value is correctly rounded.
\<close>

definition float_isspace :: "char \<Rightarrow> bool" where
  "float_isspace c = (let n = (of_char c :: nat) in
      (9 \<le> n \<and> n \<le> 13) \<or> n = 32 \<or> n = 133 \<or> n = 160)"

primrec underscores_ok :: "char \<Rightarrow> string \<Rightarrow> bool" where
  "underscores_ok prev [] = (prev \<noteq> CHR ''_'')"
| "underscores_ok prev (c # cs) =
     ((if c = CHR ''_'' then is_digit prev else (prev = CHR ''_'' \<longrightarrow> is_digit c))
      \<and> underscores_ok c cs)"

definition to_lower :: "char \<Rightarrow> char" where
  "to_lower c =
     (case map_of (zip ''ABCDEFGHIJKLMNOPQRSTUVWXYZ'' ''abcdefghijklmnopqrstuvwxyz'') c of
        None \<Rightarrow> c | Some l \<Rightarrow> l)"

definition split_sign :: "string \<Rightarrow> bool \<times> string" where
  "split_sign s = (case s of [] \<Rightarrow> (False, [])
     | c # cs \<Rightarrow> if c = CHR ''-'' then (True, cs)
                else if c = CHR ''+'' then (False, cs) else (False, s))"

definition parse_exponent :: "string \<Rightarrow> int option" where
  "parse_exponent s = (case s of [] \<Rightarrow> Some 0
     | c # cs \<Rightarrow>
         if c = CHR ''e'' \<or> c = CHR ''E'' then
           (let (neg, ds) = split_sign cs in
            if ds \<noteq> [] \<and> list_all is_digit ds
            then Some (if neg then - digits_value ds else digits_value ds)
            else None)
         else None)"

definition parse_decimal :: "bool \<Rightarrow> string \<Rightarrow> py_error + pyfloat" where
  "parse_decimal neg s =
     (let ip = takeWhile is_digit s; r1 = dropWhile is_digit s;
          (fp, r2) = (case r1 of [] \<Rightarrow> ([], [])
                      | c # cs \<Rightarrow> if c = CHR ''.''
                                 then (takeWhile is_digit cs, dropWhile is_digit cs)
                                 else ([], r1))
      in if ip = [] \<and> fp = [] then Inl ValueError
         else (case parse_exponent r2 of None \<Rightarrow> Inl ValueError
               | Some e \<Rightarrow>
                   (let x = e - int (length fp)
                    in Inr (round_double neg (digits_value (ip @ fp) * pow10i x)
                              (pow10i (- x))))))"

definition float_of_string :: "string \<Rightarrow> py_error + pyfloat" where
  "float_of_string s =
     (let t = rev (dropWhile float_isspace (rev (dropWhile float_isspace s))) in
      if \<not> underscores_ok (CHR 0x00) t then Inl ValueError
      else let (neg, r) = split_sign (filter (\<lambda>c. c \<noteq> CHR ''_'') t);
               w = map to_lower r
           in if w = ''inf'' \<or> w = ''infinity'' then Inr (Inf neg)
              else if w = ''nan'' then Inr NaN
              else parse_decimal neg r)"

text \<open>\<^verbatim>\<open>int(s)\<close> on a non-empty string of digits (all the scanner ever passes): the
  decimal value; the interpreter refuses more than \<open>int_max_str_digits\<close> digits with
  \<^verbatim>\<open>ValueError\<close>.\<close>

definition int_max_str_digits :: nat where
  "int_max_str_digits = 4300"

definition int_of_digits :: "string \<Rightarrow> py_error + int" where
  "int_of_digits ds =
     (if int_max_str_digits < length ds then Inl ValueError else Inr (digits_value ds))"

subsection \<open>Rendering of integers and floats\<close>

definition digit_char :: "int \<Rightarrow> char" where
  "digit_char d = ''0123456789'' ! nat d"

text \<open>The decimal digits of a non-negative integer, as \<^verbatim>\<open>str\<close> and \<^verbatim>\<open>{n}\<close>
  in a formatted string give them.\<close>

function dec_digits :: "int \<Rightarrow> string" where
  "dec_digits n = (if n < 10 then [digit_char n] else dec_digits (n div 10) @ [digit_char (n mod 10)])"
  by pat_completeness auto
termination
  by (relation "measure nat") auto

declare dec_digits.simps [simp del]

definition zero_pad :: "nat \<Rightarrow> string \<Rightarrow> string" where
  "zero_pad w ds = replicate (w - length ds) (CHR ''0'') @ ds"

definition sign_str :: "bool \<Rightarrow> string" where
  "sign_str neg = (if neg then ''-'' else [])"

text \<open>The format \<^verbatim>\<open>.<p>f\<close>: the exact value rounded to \<open>p\<close> fractional digits, a
  tie to the even digit.\<close>

fun format_fixed :: "nat \<Rightarrow> pyfloat \<Rightarrow> string" where
  "format_fixed p NaN = ''nan''"
| "format_fixed p (Inf neg) = sign_str neg @ ''inf''"
| "format_fixed p (Fin neg n k) =
     (let N = round_half_even (n * 10 ^ p) (2 ^ k)
      in sign_str neg @ dec_digits (N div 10 ^ p)
         @ (if p = 0 then [] else ''.'' @ zero_pad p (dec_digits (N mod 10 ^ p))))"

text \<open>The floor of the decimal logarithm of \<open>p / q\<close>, for \<open>0 < p\<close> and \<open>0 < q\<close>.\<close>

definition floor_log10 :: "int \<Rightarrow> int \<Rightarrow> int" where
  "floor_log10 p q =
     (if q \<le> p then int (length (dec_digits (p div q))) - 1
      else (let c = - ((- q) div p)
            in - int (length (dec_digits (c - 1)))))"

text \<open>The format \<^verbatim>\<open>.3e\<close>: one digit, a point, three digits, and the decimal exponent
  with its sign and at least two digits.\<close>

fun format_sci3 :: "pyfloat \<Rightarrow> string" where
  "format_sci3 NaN = ''nan''"
| "format_sci3 (Inf neg) = sign_str neg @ ''inf''"
| "format_sci3 (Fin neg n k) =
     (if n = 0 then sign_str neg @ ''0.000e+00''
      else let x0 = floor_log10 n (2 ^ k);
               N0 = round_half_even (n * pow10i (3 - x0)) (2 ^ k * pow10i (x0 - 3));
               N = (if 10000 \<le> N0 then N0 div 10 else N0);
               x = (if 10000 \<le> N0 then x0 + 1 else x0);
               ds = dec_digits N
           in sign_str neg @ take 1 ds @ ''.'' @ drop 1 ds
              @ ''e'' @ (if x < 0 then ''-'' else ''+'') @ zero_pad 2 (dec_digits (abs x)))"

subsection \<open>The result table\<close>

text \<open>
  \<^verbatim>\<open>peak_data\<close> is a dict from the peak number to a dict from the measurement name
  to a dict of the three fields \<^verbatim>\<open>value\<close>, \<^verbatim>\<open>units\<close>,
  \<^verbatim>\<open>uncertainty_pct\<close>. Assignment to a key replaces the value in place when the key
  is present and appends the key otherwise, as \<^const>\<open>AList.update\<close> does.
\<close>

record measurement =
  val :: pyfloat
  units :: string
  uncertainty_pct :: pyfloat

type_synonym peak_record = "(string \<times> measurement) list"

type_synonym result_table = "(int \<times> peak_record) list"


text \<open>
  \<^verbatim>\<open>if peak_num not in peak_data: peak_data[peak_num] = {}\<close> followed by
  \<^verbatim>\<open>peak_data[peak_num][name] = m\<close>.
\<close>

definition store_measurement ::
  "result_table \<Rightarrow> int \<Rightarrow> string \<Rightarrow> measurement \<Rightarrow> result_table" where
  "store_measurement peak_data peak_num name m =
     (let pd = (if map_of peak_data peak_num = None
                then AList.update peak_num [] peak_data else peak_data)
      in AList.update peak_num
           (AList.update name m (case map_of pd peak_num of None \<Rightarrow> [] | Some r \<Rightarrow> r)) pd)"

subsection \<open>The scanner\<close>

definition result_tag :: "string \<Rightarrow> string" where
  "result_tag t = ''<result type='' @ [dq] @ t @ [dq] @ ''>''"

text \<open>
  The scalar line of a molar mass or rms radius block: the first pattern, and when it has
  no match the second one. The groups are converted in the order of the source, so that
  the first conversion that fails raises. The result is \<open>None\<close> when neither pattern
  matches, and otherwise \<open>(units, uncertainty, peak_num, value_str)\<close>.
\<close>

definition scalar_with_units ::
  "string \<Rightarrow> py_error + (string \<times> pyfloat \<times> int \<times> string) option" where
  "scalar_with_units scalar_line =
     (case re_search rx_units_unc_peak scalar_line of
        Some g \<Rightarrow>
          (case float_of_string (g ! 1) of Inl e \<Rightarrow> Inl e
           | Inr uncertainty \<Rightarrow>
               (case int_of_digits (g ! 2) of Inl e \<Rightarrow> Inl e
                | Inr peak_num \<Rightarrow> Inr (Some (g ! 0, uncertainty, peak_num, strip (g ! 3)))))
      | None \<Rightarrow>
          (case re_search rx_units_peak_unc scalar_line of
             None \<Rightarrow> Inr None
           | Some g \<Rightarrow>
               (case int_of_digits (g ! 1) of Inl e \<Rightarrow> Inl e
                | Inr peak_num \<Rightarrow>
                    (case float_of_string (g ! 2) of Inl e \<Rightarrow> Inl e
                     | Inr uncertainty \<Rightarrow>
                         Inr (Some (g ! 0, uncertainty, peak_num, strip (g ! 3)))))))"

text \<open>The scalar line of a polydispersity block: no units, \<open>(uncertainty, peak_num, value_str)\<close>.\<close>

definition scalar_without_units ::
  "string \<Rightarrow> py_error + (pyfloat \<times> int \<times> string) option" where
  "scalar_without_units scalar_line =
     (case re_search rx_unc_peak scalar_line of
        Some g \<Rightarrow>
          (case float_of_string (g ! 0) of Inl e \<Rightarrow> Inl e
           | Inr uncertainty \<Rightarrow>
               (case int_of_digits (g ! 1) of Inl e \<Rightarrow> Inl e
                | Inr peak_num \<Rightarrow> Inr (Some (uncertainty, peak_num, strip (g ! 2)))))
      | None \<Rightarrow>
          (case re_search rx_peak_unc scalar_line of
             None \<Rightarrow> Inr None
           | Some g \<Rightarrow>
               (case int_of_digits (g ! 0) of Inl e \<Rightarrow> Inl e
                | Inr peak_num \<Rightarrow>
                    (case float_of_string (g ! 1) of Inl e \<Rightarrow> Inl e
                     | Inr uncertainty \<Rightarrow> Inr (Some (uncertainty, peak_num, strip (g ! 2)))))))"

text \<open>
  \<^verbatim>\<open>if scalar_match and value_str != 'n/a' and value_str != '~Invalid':\<close> with its body:
  the value is converted, the uncertainty divided by it and multiplied by 100, and the
  measurement stored.
\<close>

definition record_value ::
  "result_table \<Rightarrow> string \<Rightarrow> string \<Rightarrow> pyfloat \<Rightarrow> int \<Rightarrow> string \<Rightarrow> py_error + result_table" where
  "record_value peak_data name unit uncertainty peak_num value_str =
     (if value_str \<noteq> ''n/a'' \<and> value_str \<noteq> ''~Invalid'' then
        (case float_of_string value_str of Inl e \<Rightarrow> Inl e
         | Inr value \<Rightarrow>
             (case float_div uncertainty value of Inl e \<Rightarrow> Inl e
              | Inr ratio \<Rightarrow>
                  Inr (store_measurement peak_data peak_num name
                         \<lparr>val = value, units = unit,
                          uncertainty_pct = float_mul ratio (float_of_nat 100)\<rparr>)))
      else Inr peak_data)"

definition molar_mass_block ::
  "string list \<Rightarrow> nat \<Rightarrow> result_table \<Rightarrow> py_error + result_table" where
  "molar_mass_block lines i peak_data =
     (if i + 1 < length lines \<and> i + 2 < length lines then
        (let name_line = strip (lines ! (i + 1));
             scalar_line = strip (lines ! (i + 2))
         in case re_search rx_name name_line of
              None \<Rightarrow> Inr peak_data
            | Some ng \<Rightarrow>
                (case scalar_with_units scalar_line of
                   Inl e \<Rightarrow> Inl e
                 | Inr None \<Rightarrow> Inr peak_data
                 | Inr (Some (unit, uncertainty, peak_num, value_str)) \<Rightarrow>
                     record_value peak_data (ng ! 0) unit uncertainty peak_num value_str))
      else Inr peak_data)"

definition polydispersity_block ::
  "string list \<Rightarrow> nat \<Rightarrow> result_table \<Rightarrow> py_error + result_table" where
  "polydispersity_block lines i peak_data =
     (if i + 1 < length lines \<and> i + 2 < length lines then
        (let name_line = strip (lines ! (i + 1))
         in if contains ''<name>Mw/Mn</name>'' name_line then
              (let scalar_line = strip (lines ! (i + 2))
               in case scalar_without_units scalar_line of
                    Inl e \<Rightarrow> Inl e
                  | Inr None \<Rightarrow> Inr peak_data
                  | Inr (Some (uncertainty, peak_num, value_str)) \<Rightarrow>
                      record_value peak_data ''Mw/Mn'' [] uncertainty peak_num value_str)
            else Inr peak_data)
      else Inr peak_data)"

definition rms_radius_block ::
  "string list \<Rightarrow> nat \<Rightarrow> result_table \<Rightarrow> py_error + result_table" where
  "rms_radius_block lines i peak_data =
     (if i + 1 < length lines \<and> i + 2 < length lines then
        (let name_line = strip (lines ! (i + 1));
             scalar_line = strip (lines ! (i + 2))
         in case re_search rx_name name_line of
              None \<Rightarrow> Inr peak_data
            | Some ng \<Rightarrow>
                if ng ! 0 = ''rz'' then
                  (case scalar_with_units scalar_line of
                     Inl e \<Rightarrow> Inl e
                   | Inr None \<Rightarrow> Inr peak_data
                   | Inr (Some (unit, uncertainty, peak_num, value_str)) \<Rightarrow>
                       record_value peak_data ''rz'' unit uncertainty peak_num value_str)
                else Inr peak_data)
      else Inr peak_data)"

text \<open>The body of the loop \<^verbatim>\<open>for i, line in enumerate(lines)\<close>, for \<open>i < length lines\<close>.\<close>

definition scan_line :: "string list \<Rightarrow> nat \<Rightarrow> result_table \<Rightarrow> py_error + result_table" where
  "scan_line lines i peak_data =
     (let line = strip (lines ! i)
      in if contains (result_tag ''molar mass'') line then molar_mass_block lines i peak_data
         else if contains (result_tag ''polydispersity'') line
              then polydispersity_block lines i peak_data
         else if contains (result_tag ''rms radius'') line
              then rms_radius_block lines i peak_data
         else Inr peak_data)"

text \<open>The loop over the given indices; an exception ends it.\<close>

fun scan_from :: "string list \<Rightarrow> nat list \<Rightarrow> result_table \<Rightarrow> py_error + result_table" where
  "scan_from lines [] peak_data = Inr peak_data"
| "scan_from lines (i # is) peak_data =
     (case scan_line lines i peak_data of
        Inl e \<Rightarrow> Inl e
      | Inr peak_data' \<Rightarrow> scan_from lines is peak_data')"

text \<open>The body of the \<^verbatim>\<open>try\<close> statement.\<close>

definition scan_document :: "string \<Rightarrow> py_error + result_table" where
  "scan_document xml_content =
     (let lines = split_nl xml_content in scan_from lines [0..<length lines] [])"

text \<open>\<^verbatim>\<open>extract_peak_results\<close>: \<^verbatim>\<open>except Exception\<close> logs the error and returns
  the empty dict.\<close>

definition extract_peak_results :: "string \<Rightarrow> result_table" where
  "extract_peak_results xml_content =
     (case scan_document xml_content of Inl e \<Rightarrow> [] | Inr peak_data \<Rightarrow> peak_data)"

subsection \<open>Formatting and the report\<close>

definition PDI_DECIMAL_PLACES :: nat where
  "PDI_DECIMAL_PLACES = 3"

definition MW_DECIMAL_PLACES :: nat where
  "MW_DECIMAL_PLACES = 1"

text \<open>The two characters between the opening parenthesis and the percentage in the
  source's format string: code points \<open>0xAC\<close> and \<open>0xB1\<close>.\<close>

definition plus_minus :: string where
  "plus_minus = [CHR 0xAC, CHR 0xB1]"

text \<open>\<^verbatim>\<open>format_value_with_uncertainty(value, units, uncertainty_pct, extra_precision=False)\<close>\<close>

definition format_value_with_uncertainty ::
  "pyfloat \<Rightarrow> string \<Rightarrow> pyfloat \<Rightarrow> bool \<Rightarrow> string" where
  "format_value_with_uncertainty value unit pct extra_precision =
     (let formatted_value = (if float_ge value (float_of_nat 1000) then format_sci3 value
                             else format_fixed 1 value);
          precision = (if extra_precision then PDI_DECIMAL_PLACES else MW_DECIMAL_PLACES)
      in formatted_value @ '' ('' @ plus_minus @ format_fixed precision pct @ ''%)'')"

text \<open>The copy in \<^verbatim>\<open>extract_molecular_weights.py\<close> has no fourth parameter and
  always writes the percentage with one fractional digit.\<close>

definition format_value_with_uncertainty_emw :: "pyfloat \<Rightarrow> string \<Rightarrow> pyfloat \<Rightarrow> string" where
  "format_value_with_uncertainty_emw value unit pct =
     (let formatted_value = (if float_ge value (float_of_nat 1000) then format_sci3 value
                             else format_fixed 1 value)
      in formatted_value @ '' ('' @ plus_minus @ format_fixed 1 pct @ ''%)'')"

text \<open>
  The lines \<^verbatim>\<open>display_and_save_results\<close> collects in \<^verbatim>\<open>summary_lines\<close> and
  writes, joined by newlines, to the summary file. Every heading of the source starts
  with a pictograph and a blank; pictographs lie outside the characters of \<^typ>\<open>string\<close>
  and are left out here, the rest of each heading is as in the source.
\<close>

definition title_line :: string where
  "title_line = ''MOLECULAR WEIGHT ANALYSIS RESULTS''"

definition peak_header :: "int \<Rightarrow> string" where
  "peak_header peak_num = ''Peak '' @ dec_digits peak_num"

definition peak_divider :: string where
  "peak_divider = replicate 30 (CHR ''-'')"

definition mass_header :: string where
  "mass_header = ''Molar mass moments (g/mol)''"

definition pdi_header :: string where
  "pdi_header = ''Polydispersity''"

definition radius_header :: string where
  "radius_header = ''RMS radius moments (nm)''"

text \<open>\<^verbatim>\<open>if key in data:\<close> followed by the line for \<^verbatim>\<open>data[key]\<close>.\<close>

definition moment_line :: "peak_record \<Rightarrow> string \<Rightarrow> bool \<Rightarrow> string list" where
  "moment_line data key extra_precision =
     (case map_of data key of
        None \<Rightarrow> []
      | Some m \<Rightarrow>
          [''  '' @ key @ '': ''
             @ format_value_with_uncertainty (val m)
                 (if extra_precision then [] else units m) (uncertainty_pct m) extra_precision])"

definition peak_section :: "int \<Rightarrow> peak_record \<Rightarrow> string list" where
  "peak_section peak_num data =
     [[nl] @ peak_header peak_num, peak_divider]
     @ (if list_ex (\<lambda>key. map_of data key \<noteq> None) [''Mn'', ''Mw'', ''Mp'', ''Mz'']
        then [mass_header, []]
             @ moment_line data ''Mn'' False
             @ moment_line data ''Mw'' False
             @ moment_line data ''Mp'' False
             @ [[]]
        else [])
     @ (if map_of data ''Mw/Mn'' \<noteq> None
        then [pdi_header, []] @ moment_line data ''Mw/Mn'' True @ [[]]
        else [])
     @ (if map_of data ''rz'' \<noteq> None
        then [radius_header, []] @ moment_line data ''rz'' False @ [[]]
        else [])"

definition summary_lines :: "result_table \<Rightarrow> string list" where
  "summary_lines peak_data =
     [replicate 50 (CHR ''=''), title_line, replicate 50 (CHR ''='')]
     @ concat (map (\<lambda>peak_num.
                      peak_section peak_num
                        (case map_of peak_data peak_num of None \<Rightarrow> [] | Some data \<Rightarrow> data))
                 (sort (map fst peak_data)))"

subsection \<open>The document grammar\<close>

text \<open>
  The lines of a measurement block as the instrument controller writes them, used to
  state the properties below: the name line, and the scalar line in its two attribute
  orders, with and without the \<^verbatim>\<open>units\<close> attribute.
\<close>

definition name_elem :: "string \<Rightarrow> string" where
  "name_elem nm = ''<name>'' @ nm @ ''</name>''"

definition attr :: "string \<Rightarrow> string \<Rightarrow> string" where
  "attr k v = '' '' @ k @ ''='' @ [dq] @ v @ [dq]"

definition scalar_units_unc_peak :: "string \<Rightarrow> string \<Rightarrow> string \<Rightarrow> string \<Rightarrow> string" where
  "scalar_units_unc_peak u x n v =
     ''<scalar'' @ attr ''units'' u @ attr ''uncertainty'' x @ attr ''peak'' n
     @ ''>'' @ v @ ''</scalar>''"

definition scalar_units_peak_unc :: "string \<Rightarrow> string \<Rightarrow> string \<Rightarrow> string \<Rightarrow> string" where
  "scalar_units_peak_unc u x n v =
     ''<scalar'' @ attr ''units'' u @ attr ''peak'' n @ attr ''uncertainty'' x
     @ ''>'' @ v @ ''</scalar>''"

definition scalar_unc_peak :: "string \<Rightarrow> string \<Rightarrow> string \<Rightarrow> string" where
  "scalar_unc_peak x n v =
     ''<scalar'' @ attr ''uncertainty'' x @ attr ''peak'' n @ ''>'' @ v @ ''</scalar>''"

definition scalar_peak_unc :: "string \<Rightarrow> string \<Rightarrow> string \<Rightarrow> string" where
  "scalar_peak_unc x n v =
     ''<scalar'' @ attr ''peak'' n @ attr ''uncertainty'' x @ ''>'' @ v @ ''</scalar>''"

text \<open>A document is its lines joined by newlines.\<close>

fun join_nl :: "string list \<Rightarrow> string" where
  "join_nl [] = []"
| "join_nl [l] = l"
| "join_nl (l # ls) = l @ nl # join_nl ls"

text \<open>
  The texts a well-formed block is made of: an attribute value has no quote and no
  newline, a peak number is a non-empty string of digits that \<^verbatim>\<open>int\<close> accepts,
  the content of the scalar element has no \<^verbatim>\<open><\<close>, no quote and no newline, a
  name is not empty and has no \<^verbatim>\<open><\<close> and no newline.
\<close>

definition attr_text :: "string \<Rightarrow> bool" where
  "attr_text s = (dq \<notin> set s \<and> nl \<notin> set s)"

definition peak_text :: "string \<Rightarrow> bool" where
  "peak_text n = (n \<noteq> [] \<and> list_all is_digit n \<and> length n \<le> int_max_str_digits)"

definition value_text :: "string \<Rightarrow> bool" where
  "value_text v = (CHR ''<'' \<notin> set v \<and> dq \<notin> set v \<and> nl \<notin> set v)"

definition name_text :: "string \<Rightarrow> bool" where
  "name_text nm = (nm \<noteq> [] \<and> CHR ''<'' \<notin> set nm \<and> nl \<notin> set nm)"

text \<open>The scalar lines of a block of result type \<open>ty\<close>, in the two attribute orders.\<close>

definition scalar_forms :: "string \<Rightarrow> string \<Rightarrow> string \<Rightarrow> string \<Rightarrow> string \<Rightarrow> string list" where
  "scalar_forms ty u x n v =
     (if ty = ''polydispersity'' then [scalar_unc_peak x n v, scalar_peak_unc x n v]
      else [scalar_units_unc_peak u x n v, scalar_units_peak_unc u x n v])"

text \<open>
  \<open>block_at lines i ty nm u x n v\<close>: the trimmed lines \<open>i\<close>, \<open>i + 1\<close> and \<open>i + 2\<close> are
  a well-formed block of one of the three result types, with name \<open>nm\<close>, units \<open>u\<close>
  (not written for polydispersity), uncertainty text \<open>x\<close>, peak text \<open>n\<close> and value text \<open>v\<close>.
\<close>

definition block_at ::
  "string list \<Rightarrow> nat \<Rightarrow> string \<Rightarrow> string \<Rightarrow> string \<Rightarrow> string \<Rightarrow> string \<Rightarrow> string \<Rightarrow> bool" where
  "block_at lines i ty nm u x n v =
     (i + 2 < length lines
      \<and> ty \<in> set [''molar mass'', ''polydispersity'', ''rms radius'']
      \<and> strip (lines ! i) = result_tag ty
      \<and> strip (lines ! (i + 1)) = name_elem nm
      \<and> strip (lines ! (i + 2)) \<in> set (scalar_forms ty u x n v)
      \<and> name_text nm \<and> attr_text u \<and> attr_text x \<and> peak_text n \<and> value_text v)"

text \<open>The type and name pairs the scanner records, and the units it stores for them.\<close>

definition recorded :: "string \<Rightarrow> string \<Rightarrow> bool" where
  "recorded ty nm =
     (ty = ''molar mass'' \<or> (ty = ''polydispersity'' \<and> nm = ''Mw/Mn'')
      \<or> (ty = ''rms radius'' \<and> nm = ''rz''))"

definition stored_units :: "string \<Rightarrow> string \<Rightarrow> string" where
  "stored_units ty u = (if ty = ''polydispersity'' then [] else u)"

text \<open>\<^verbatim>\<open>(uncertainty / value) * 100\<close> for a value that is not zero.\<close>

definition pct_of :: "pyfloat \<Rightarrow> pyfloat \<Rightarrow> pyfloat" where
  "pct_of uncertainty value = float_mul (float_quot uncertainty value) (float_of_nat 100)"

subsection \<open>Example documents\<close>

text \<open>The lines of one block, indented as in a results document.\<close>

definition block_lines :: "string \<Rightarrow> string \<Rightarrow> string \<Rightarrow> string list" where
  "block_lines ty nm sc = [''  '' @ result_tag ty, ''    '' @ name_elem nm, ''    '' @ sc]"

definition mn_block :: "string list" where
  "mn_block = block_lines ''molar mass'' ''Mn''
                (scalar_units_unc_peak ''g/mol'' ''300'' ''1'' ''15000'')"

definition mn_block_other_order :: "string list" where
  "mn_block_other_order = block_lines ''molar mass'' ''Mn''
                (scalar_units_peak_unc ''g/mol'' ''300'' ''1'' ''15000'')"

definition mw_block :: "string \<Rightarrow> string list" where
  "mw_block v = block_lines ''molar mass'' ''Mw''
                  (scalar_units_peak_unc ''g/mol'' ''600'' ''1'' v)"

definition mz_block :: "string list" where
  "mz_block = block_lines ''molar mass'' ''Mz''
                (scalar_units_unc_peak ''g/mol'' ''900'' ''1'' ''45000'')"

definition pdi_block :: "string list" where
  "pdi_block = block_lines ''polydispersity'' ''Mw/Mn'' (scalar_unc_peak ''0.04'' ''1'' ''2.0'')"

definition pdi_zero :: "string list" where
  "pdi_zero = block_lines ''polydispersity'' ''Mw/Mn'' (scalar_peak_unc ''0.04'' ''1'' ''0.0'')"


definition radius_block :: "string \<Rightarrow> string list" where
  "radius_block nm = block_lines ''rms radius'' nm
                       (scalar_units_unc_peak ''nm'' ''1'' ''2'' ''25'')"

definition mn_measurement :: measurement where
  "mn_measurement = \<lparr>val = Fin False 15000 0, units = ''g/mol'', uncertainty_pct = Fin False 2 0\<rparr>"

definition mz_measurement :: measurement where
  "mz_measurement = \<lparr>val = Fin False 45000 0, units = ''g/mol'', uncertainty_pct = Fin False 2 0\<rparr>"


lemma rx_match_Lit:
  "rx_match (Lit l # r) caps s =
     (if prefix l s then rx_match r caps (drop (length l) s) else None)"
  by simp

lemma rx_match_LazyAny: "rx_match (LazyAny # r) caps s = lazy_any (rx_match r caps) s"
  by simp

lemma rx_match_Grp:
  "rx_match (Grp cls mn # r) caps s = greedy_cap cls mn (\<lambda>g. rx_match r (caps @ [g])) s"
  by simp

lemma try_down_hit: "f n = Some r \<Longrightarrow> try_down f n = Some r"
  by (cases n) simp_all

lemma try_down_below_None: "(\<And>m. m < n \<Longrightarrow> f m = None) \<Longrightarrow> try_down f n = f n"
proof (induction n)
  case 0
  then show ?case by simp
next
  case (Suc n)
  have "try_down f n = f n" using Suc by simp
  moreover have "f n = None" using Suc.prems by simp
  ultimately show ?case by (simp split: option.splits)
qed

lemma try_down_all_None: "(\<And>m. f m = None) \<Longrightarrow> try_down f n = None"
  by (induction n) simp_all

lemma lazy_any_hit: "k s = Some r \<Longrightarrow> lazy_any k s = Some r"
  by (cases s) simp_all

lemma re_search_hit: "rx_match items [] s = Some r \<Longrightarrow> re_search items s = Some r"
  by (cases s) simp_all

lemma takeWhile_delim:
  "list_all cls g \<Longrightarrow> \<not> cls d \<Longrightarrow> takeWhile cls (g @ d # rest) = g"
  by (induction g) simp_all

text \<open>A greedy class group followed by a literal whose first character is outside the class.\<close>

lemma greedy_delim:
  assumes "list_all cls g" and "\<not> cls d"
  shows "rx_match (Grp cls mn # Lit (d # l) # r) caps (g @ d # rest) =
           (if mn \<le> length g then rx_match (Lit (d # l) # r) (caps @ [g]) (d # rest) else None)"
proof -
  let ?s = "g @ d # rest"
  let ?f = "\<lambda>n. if n < mn then None
                 else rx_match (Lit (d # l) # r) (caps @ [take n ?s]) (drop n ?s)"
  have below: "?f m = None" if "m < length g" for m
  proof -
    have "drop m ?s = g ! m # drop (Suc m) g @ d # rest"
      using that by (simp add: Cons_nth_drop_Suc)
    moreover have "cls (g ! m)" using assms(1) that by (simp add: list_all_length)
    ultimately show ?thesis using assms(2) by (auto simp del: rx_match.simps simp add: rx_match_Lit)
  qed
  have "rx_match (Grp cls mn # Lit (d # l) # r) caps ?s = try_down ?f (length g)"
    by (simp only: rx_match_Grp greedy_cap_def takeWhile_delim [OF assms])
  also have "\<dots> = ?f (length g)"
    by (rule try_down_below_None) (rule below)
  finally show ?thesis by (simp del: rx_match.simps)
qed

lemma greedy_no_delim:
  assumes "d \<notin> set s"
  shows "rx_match (Grp cls mn # Lit (d # l) # r) caps s = None"
proof -
  let ?f = "\<lambda>n. if n < mn then None
                 else rx_match (Lit (d # l) # r) (caps @ [take n s]) (drop n s)"
  have none: "?f m = None" for m
  proof (cases "drop m s")
    case Nil
    then show ?thesis by (simp del: rx_match.simps add: rx_match_Lit)
  next
    case (Cons c cs)
    then have "c \<in> set s" by (metis in_set_dropD list.set_intros(1))
    with assms have "c \<noteq> d" by auto
    with Cons show ?thesis by (simp del: rx_match.simps add: rx_match_Lit)
  qed
  have "try_down ?f n = None" for n
    by (rule try_down_all_None) (rule none)
  then show ?thesis by (simp only: rx_match_Grp greedy_cap_def)
qed

text \<open>The lazy wildcard in front of a literal that ends with a character \<open>d\<close>, on a text
  whose first \<open>d\<close> stands after \<open>g\<close>.\<close>

lemma prefix_delim:
  "d \<notin> set l0 \<Longrightarrow> d \<notin> set g \<Longrightarrow> prefix (l0 @ [d]) (g @ d # rest) \<longleftrightarrow> l0 = g"
proof (induction l0 arbitrary: g)
  case Nil
  then show ?case by (cases g) auto
next
  case (Cons a l0)
  then show ?case by (cases g) auto
qed

lemma lazy_any_lit_delim:
  assumes "d \<notin> set g" and "nl \<notin> set g" and "d \<notin> set l0" and "d \<noteq> nl"
  shows "lazy_any (rx_match (Lit (l0 @ [d]) # r) caps) (g @ d # rest) =
           (if suffix l0 g then
              (case rx_match r caps rest of Some res \<Rightarrow> Some res
               | None \<Rightarrow> lazy_any (rx_match (Lit (l0 @ [d]) # r) caps) rest)
            else lazy_any (rx_match (Lit (l0 @ [d]) # r) caps) rest)"
proof -
  define K where "K = rx_match (Lit (l0 @ [d]) # r) caps"
  have K: "K s = (if prefix (l0 @ [d]) s then rx_match r caps (drop (Suc (length l0)) s) else None)"
    for s by (simp add: K_def)
  have "lazy_any K (g @ d # rest) =
           (if suffix l0 g then
              (case rx_match r caps rest of Some res \<Rightarrow> Some res | None \<Rightarrow> lazy_any K rest)
            else lazy_any K rest)"
    using assms(1,2)
  proof (induction g)
    case Nil
    show ?case
    proof (cases l0)
      case Nil
      then have "K (d # rest) = rx_match r caps rest" by (simp add: K [of "d # rest"])
      with Nil show ?thesis using assms(4) by (simp split: option.splits)
    next
      case (Cons a l)
      then have "a \<noteq> d" using assms(3) by auto
      with Cons have "K (d # rest) = None" by (simp add: K [of "d # rest"])
      with Cons show ?thesis using assms(4) by simp
    qed
  next
    case (Cons c g)
    have c: "c \<noteq> nl" "c \<noteq> d" using Cons.prems by auto
    have IH: "lazy_any K (g @ d # rest) =
           (if suffix l0 g then
              (case rx_match r caps rest of Some res \<Rightarrow> Some res | None \<Rightarrow> lazy_any K rest)
            else lazy_any K rest)"
      using Cons by simp
    have pre: "prefix (l0 @ [d]) (c # g @ d # rest) \<longleftrightarrow> l0 = c # g"
      using prefix_delim [OF assms(3) Cons.prems(1), of rest] by simp
    show ?case
    proof (cases "l0 = c # g")
      case True
      then have ns: "\<not> suffix l0 g"
        using suffix_length_le by fastforce
      have "K (c # g @ d # rest) = rx_match r caps rest"
        using True pre by (simp add: K [of "c # g @ d # rest"])
      with True ns IH c show ?thesis
        by (simp split: option.splits)
    next
      case False
      then have "suffix l0 (c # g) \<longleftrightarrow> suffix l0 g"
        by (auto simp: suffix_Cons)
      moreover have "K (c # g @ d # rest) = None"
        using False pre by (simp add: K [of "c # g @ d # rest"])
      ultimately show ?thesis using IH c by simp
    qed
  qed
  then show ?thesis by (simp only: K_def)
qed

lemma lazy_any_lit_no_delim:
  assumes "d \<notin> set s"
  shows "lazy_any (rx_match (Lit (l0 @ [d]) # r) caps) s = None"
proof -
  define K where "K = rx_match (Lit (l0 @ [d]) # r) caps"
  have K: "K t = None" if "d \<notin> set t" for t
  proof -
    have "\<not> prefix (l0 @ [d]) t"
    proof
      assume "prefix (l0 @ [d]) t"
      then have "set (l0 @ [d]) \<subseteq> set t" by (rule set_mono_prefix)
      with that show False by auto
    qed
    then show ?thesis by (simp add: K_def)
  qed
  have "lazy_any K s = None" using assms
  proof (induction s)
    case Nil
    then show ?case using K [of "[]"] by simp
  next
    case (Cons c s)
    then show ?case using K [of "c # s"] by simp
  qed
  then show ?thesis by (simp only: K_def)
qed

text \<open>A search for a pattern that starts with a literal and a lazy wildcard.\<close>

lemma lazy_any_None_suffix:
  "lazy_any k t = None \<Longrightarrow> nl \<notin> set t \<Longrightarrow> suffix t' t \<Longrightarrow> lazy_any k t' = None"
proof (induction t)
  case Nil
  then show ?case by simp
next
  case (Cons c t)
  show ?case
  proof (cases "t' = c # t")
    case True
    with Cons.prems show ?thesis by simp
  next
    case False
    with Cons.prems have "suffix t' t" by (auto simp: suffix_Cons)
    moreover have "lazy_any k t = None" using Cons.prems by (simp split: option.splits if_splits)
    ultimately show ?thesis using Cons by simp
  qed
qed

lemma re_search_None:
  "(\<And>s'. suffix s' s \<Longrightarrow> rx_match items [] s' = None) \<Longrightarrow> re_search items s = None"
proof (induction s)
  case Nil
  then show ?case by (simp del: rx_match.simps)
next
  case (Cons c s)
  have "rx_match items [] (c # s) = None" using Cons.prems by simp
  moreover have "re_search items s = None"
    using Cons by (simp add: suffix_Cons)
  ultimately show ?case by (simp del: rx_match.simps)
qed

lemma re_search_lit_lazy:
  assumes "nl \<notin> set t"
  shows "re_search (Lit l # LazyAny # r) (l @ t) = lazy_any (rx_match r []) t"
proof (cases "lazy_any (rx_match r []) t")
  case (Some res)
  then have "rx_match (Lit l # LazyAny # r) [] (l @ t) = Some res" by simp
  then show ?thesis using Some by (simp only: re_search_hit)
next
  case None
  have "rx_match (Lit l # LazyAny # r) [] s' = None" if s': "suffix s' (l @ t)" for s'
  proof (cases "prefix l s'")
    case False
    then show ?thesis by simp
  next
    case True
    then obtain u where u: "s' = l @ u" by (auto simp: prefix_def)
    from s' obtain p where "l @ t = p @ l @ u" unfolding u by (auto simp: suffix_def)
    then have "suffix u (l @ t)" by (metis append.assoc suffixI)
    moreover have "length (l @ t) = length (p @ l @ u)"
      using \<open>l @ t = p @ l @ u\<close> by simp
    then have "length u \<le> length t" by simp
    ultimately have "suffix u t"
      by (auto simp: suffix_append)
    with None assms have "lazy_any (rx_match r []) u = None" by (rule lazy_any_None_suffix)
    with u show ?thesis by simp
  qed
  then have "re_search (Lit l # LazyAny # r) (l @ t) = None" by (rule re_search_None)
  with None show ?thesis by simp
qed

text \<open>The captured lazy wildcard in front of a literal, across characters other than the
  literal's first one.\<close>

lemma lazy_cap_skip:
  assumes "d \<notin> set g" and "nl \<notin> set g"
  shows "lazy_cap (\<lambda>a. rx_match (Lit (d # l) # r) (caps @ [a])) acc (g @ rest) =
         lazy_cap (\<lambda>a. rx_match (Lit (d # l) # r) (caps @ [a])) (acc @ g) rest"
proof -
  define K where "K = (\<lambda>a. rx_match (Lit (d # l) # r) (caps @ [a]))"
  have K: "K a (c # t) = None" if "c \<noteq> d" for a c t
    using that by (simp add: K_def)
  have "lazy_cap K acc (g @ rest) = lazy_cap K (acc @ g) rest" using assms
  proof (induction g arbitrary: acc)
    case Nil
    then show ?case by simp
  next
    case (Cons c g)
    then have "K acc (c # g @ rest) = None" using K [of c acc "g @ rest"] by auto
    moreover have "c \<noteq> nl" using Cons.prems by auto
    ultimately show ?case using Cons by simp
  qed
  then show ?thesis by (simp only: K_def)
qed


lemma rx_match_Lit_Nil: "rx_match (Lit [] # r) caps s = rx_match r caps s"
  by simp

lemma rx_match_Lit_Cons:
  "rx_match (Lit (c # l) # r) caps (c' # s) =
     (if c = c' then rx_match (Lit l # r) caps s else None)"
  by simp

lemma rx_match_Lit_end: "rx_match (Lit (c # l) # r) caps [] = None"
  by simp

lemma dq_not_nl: "dq \<noteq> nl"
  by (simp add: dq_def nl_def)

lemma lazy_attr:
  assumes "dq \<notin> set g" and "nl \<notin> set g" and "dq \<notin> set k"
  shows "lazy_any (rx_match (Lit (attr_open k) # r) caps) (g @ dq # rest) =
           (if suffix (k @ ''='') g then
              (case rx_match r caps rest of Some res \<Rightarrow> Some res
               | None \<Rightarrow> lazy_any (rx_match (Lit (attr_open k) # r) caps) rest)
            else lazy_any (rx_match (Lit (attr_open k) # r) caps) rest)"
proof -
  have "dq \<notin> set (k @ ''='')" using assms(3) by (simp add: dq_def)
  from lazy_any_lit_delim [OF assms(1,2) this dq_not_nl]
  show ?thesis by (simp only: attr_open_def append_assoc)
qed

lemma key_no_dq: "dq \<notin> set ''units''" "dq \<notin> set ''uncertainty''" "dq \<notin> set ''peak''"
  by (simp_all add: dq_def)

lemmas lazy_units = lazy_attr [OF _ _ key_no_dq(1), simplified append.simps]
lemmas lazy_uncertainty = lazy_attr [OF _ _ key_no_dq(2), simplified append.simps]
lemmas lazy_peak = lazy_attr [OF _ _ key_no_dq(3), simplified append.simps]

lemma lazy_attr_none:
  assumes "dq \<notin> set s"
  shows "lazy_any (rx_match (Lit (attr_open k) # r) caps) s = None"
  using lazy_any_lit_no_delim [OF assms, of "k @ ''=''"]
  by (simp only: attr_open_def append_assoc)

lemma grp_not_dq:
  assumes "dq \<notin> set g"
  shows "rx_match (Grp not_dq mn # Lit [dq] # r) caps (g @ dq # rest) =
           (if mn \<le> length g then rx_match r (caps @ [g]) rest else None)"
proof -
  have "list_all not_dq g" using assms by (auto simp: list_all_iff not_dq_def)
  moreover have "\<not> not_dq dq" by (simp add: not_dq_def)
  ultimately show ?thesis
    by (simp del: rx_match.simps(2) add: greedy_delim rx_match_Lit_Cons rx_match_Lit_Nil)
qed

lemma grp_not_dq_none:
  "dq \<notin> set s \<Longrightarrow> rx_match (Grp not_dq mn # Lit [dq] # r) caps s = None"
  by (rule greedy_no_delim)

lemma is_digit_dq: "\<not> is_digit dq"
  by (simp add: is_digit_def dq_def)

lemma grp_digits:
  assumes "list_all is_digit g"
  shows "rx_match (Grp is_digit mn # Lit [dq] # r) caps (g @ dq # rest) =
           (if mn \<le> length g then rx_match r (caps @ [g]) rest else None)"
  using assms is_digit_dq
  by (simp del: rx_match.simps(2) add: greedy_delim rx_match_Lit_Cons rx_match_Lit_Nil)

lemma grp_digits_none:
  "dq \<notin> set s \<Longrightarrow> rx_match (Grp is_digit mn # Lit [dq] # r) caps s = None"
  by (rule greedy_no_delim)

lemma grp_not_lt:
  assumes "CHR ''<'' \<notin> set g"
  shows "rx_match (Grp not_lt mn # Lit (CHR ''<'' # l) # r) caps (g @ CHR ''<'' # rest) =
           (if mn \<le> length g then rx_match (Lit l # r) (caps @ [g]) rest else None)"
proof -
  have "list_all not_lt g" using assms by (auto simp: list_all_iff not_lt_def)
  moreover have "\<not> not_lt (CHR ''<'')" by (simp add: not_lt_def)
  ultimately show ?thesis
    by (simp del: rx_match.simps(2) add: greedy_delim rx_match_Lit_Cons)
qed

lemmas rx_steps = rx_match_LazyAny rx_match_Lit_Nil rx_match_Lit_Cons rx_match_Lit_end
  lazy_units lazy_uncertainty lazy_peak lazy_attr_none grp_not_dq grp_not_dq_none grp_digits grp_digits_none grp_not_lt

text \<open>The last items of every scalar pattern, on the rest of a scalar line.\<close>

lemma scalar_tail:
  assumes "CHR ''<'' \<notin> set v"
  shows "rx_match [LazyAny, Lit ''>'', Grp not_lt 0, Lit ''</scalar>''] caps
           (''>'' @ v @ ''</scalar>'') = Some (caps @ [v])"
  using assms by (simp del: rx_match.simps(2) add: rx_steps)

lemma scalar_tail_none:
  assumes "dq \<notin> set s"
  shows "rx_match (LazyAny # Lit (attr_open k) # r) caps s = None"
  using assms by (simp del: rx_match.simps(2) add: rx_steps)

text \<open>The first pattern on a line of six quotes.\<close>

lemma units_unc_peak_match:
  assumes "dq \<notin> set f0" "nl \<notin> set f0" "dq \<notin> set f1" "nl \<notin> set f1"
    and "dq \<notin> set f2" "nl \<notin> set f2" "dq \<notin> set f3" "nl \<notin> set f3"
    and "dq \<notin> set f4" "nl \<notin> set f4" "nl \<notin> set v"
    and "suffix ''units='' f0" "suffix ''uncertainty='' f2" "suffix ''peak='' f4"
    and "n \<noteq> []" "list_all is_digit n" "CHR ''<'' \<notin> set v"
  shows "re_search rx_units_unc_peak
           (''<scalar'' @ f0 @ dq # f1 @ dq # f2 @ dq # f3 @ dq # f4 @ dq # n @ dq
              # ''>'' @ v @ ''</scalar>'') = Some [f1, f3, n, v]"
proof -
  have nln: "nl \<notin> set n" using assms(16) by (auto simp: list_all_iff is_digit_def nl_def)
  have nl: "nl \<notin> set (f0 @ dq # f1 @ dq # f2 @ dq # f3 @ dq # f4 @ dq # n @ dq
              # ''>'' @ v @ ''</scalar>'')"
    using assms nln by (simp add: nl_def dq_def)
  show ?thesis
    unfolding rx_units_unc_peak_def
    apply (subst re_search_lit_lazy [OF nl])
    using assms apply (simp del: rx_match.simps(2) add: rx_steps scalar_tail Suc_le_eq)
    done
qed



lemma digits_no_nl: "list_all is_digit n \<Longrightarrow> nl \<notin> set n"
  by (auto simp: list_all_iff is_digit_def nl_def)

lemma digits_no_dq: "list_all is_digit n \<Longrightarrow> dq \<notin> set n"
  by (auto simp: list_all_iff is_digit_def dq_def)

lemma units_unc_peak_no_match:
  assumes "dq \<notin> set f0" "nl \<notin> set f0" "dq \<notin> set f1" "nl \<notin> set f1"
    and "dq \<notin> set f2" "nl \<notin> set f2" "dq \<notin> set f3" "nl \<notin> set f3"
    and "dq \<notin> set f4" "nl \<notin> set f4" "dq \<notin> set f5" "nl \<notin> set f5"
    and "dq \<notin> set f6" "nl \<notin> set f6"
    and "\<not> suffix ''uncertainty='' f2"
  shows "re_search rx_units_unc_peak
           (''<scalar'' @ f0 @ dq # f1 @ dq # f2 @ dq # f3 @ dq # f4 @ dq # f5 @ dq # f6) = None"
proof -
  have nl: "nl \<notin> set (f0 @ dq # f1 @ dq # f2 @ dq # f3 @ dq # f4 @ dq # f5 @ dq # f6)"
    using assms by (simp add: nl_def dq_def)
  show ?thesis
    unfolding rx_units_unc_peak_def
    apply (subst re_search_lit_lazy [OF nl])
    using assms apply (simp del: rx_match.simps(2) add: rx_steps)
    done
qed

lemma units_peak_unc_match:
  assumes "dq \<notin> set f0" "nl \<notin> set f0" "dq \<notin> set f1" "nl \<notin> set f1"
    and "dq \<notin> set f2" "nl \<notin> set f2" "dq \<notin> set f4" "nl \<notin> set f4"
    and "dq \<notin> set f5" "nl \<notin> set f5" "nl \<notin> set v"
    and "suffix ''units='' f0" "suffix ''peak='' f2" "suffix ''uncertainty='' f4"
    and "n \<noteq> []" "list_all is_digit n" "CHR ''<'' \<notin> set v"
  shows "re_search rx_units_peak_unc
           (''<scalar'' @ f0 @ dq # f1 @ dq # f2 @ dq # n @ dq # f4 @ dq # f5 @ dq
              # ''>'' @ v @ ''</scalar>'') = Some [f1, n, f5, v]"
proof -
  have nl: "nl \<notin> set (f0 @ dq # f1 @ dq # f2 @ dq # n @ dq # f4 @ dq # f5 @ dq
              # ''>'' @ v @ ''</scalar>'')"
    using assms digits_no_nl [OF assms(16)] by (simp add: nl_def dq_def)
  show ?thesis
    unfolding rx_units_peak_unc_def
    apply (subst re_search_lit_lazy [OF nl])
    using assms apply (simp del: rx_match.simps(2) add: rx_steps scalar_tail Suc_le_eq)
    done
qed

lemma unc_peak_match:
  assumes "dq \<notin> set f0" "nl \<notin> set f0" "dq \<notin> set f1" "nl \<notin> set f1"
    and "dq \<notin> set f2" "nl \<notin> set f2" "nl \<notin> set v"
    and "suffix ''uncertainty='' f0" "suffix ''peak='' f2"
    and "n \<noteq> []" "list_all is_digit n" "CHR ''<'' \<notin> set v"
  shows "re_search rx_unc_peak
           (''<scalar'' @ f0 @ dq # f1 @ dq # f2 @ dq # n @ dq
              # ''>'' @ v @ ''</scalar>'') = Some [f1, n, v]"
proof -
  have nl: "nl \<notin> set (f0 @ dq # f1 @ dq # f2 @ dq # n @ dq # ''>'' @ v @ ''</scalar>'')"
    using assms digits_no_nl [OF assms(11)] by (simp add: nl_def dq_def)
  show ?thesis
    unfolding rx_unc_peak_def
    apply (subst re_search_lit_lazy [OF nl])
    using assms apply (simp del: rx_match.simps(2) add: rx_steps scalar_tail Suc_le_eq)
    done
qed

lemma unc_peak_no_match:
  assumes "dq \<notin> set f0" "nl \<notin> set f0" "dq \<notin> set f1" "nl \<notin> set f1"
    and "dq \<notin> set f2" "nl \<notin> set f2" "dq \<notin> set f3" "nl \<notin> set f3"
    and "dq \<notin> set f4" "nl \<notin> set f4"
    and "\<not> suffix ''uncertainty='' f0"
  shows "re_search rx_unc_peak
           (''<scalar'' @ f0 @ dq # f1 @ dq # f2 @ dq # f3 @ dq # f4) = None"
proof -
  have nl: "nl \<notin> set (f0 @ dq # f1 @ dq # f2 @ dq # f3 @ dq # f4)"
    using assms by (simp add: nl_def dq_def)
  show ?thesis
    unfolding rx_unc_peak_def
    apply (subst re_search_lit_lazy [OF nl])
    using assms apply (simp del: rx_match.simps(2) add: rx_steps)
    done
qed

lemma peak_unc_match:
  assumes "dq \<notin> set f0" "nl \<notin> set f0" "dq \<notin> set f2" "nl \<notin> set f2"
    and "dq \<notin> set f3" "nl \<notin> set f3" "nl \<notin> set v"
    and "suffix ''peak='' f0" "suffix ''uncertainty='' f2"
    and "n \<noteq> []" "list_all is_digit n" "CHR ''<'' \<notin> set v"
  shows "re_search rx_peak_unc
           (''<scalar'' @ f0 @ dq # n @ dq # f2 @ dq # f3 @ dq
              # ''>'' @ v @ ''</scalar>'') = Some [n, f3, v]"
proof -
  have nl: "nl \<notin> set (f0 @ dq # n @ dq # f2 @ dq # f3 @ dq # ''>'' @ v @ ''</scalar>'')"
    using assms digits_no_nl [OF assms(11)] by (simp add: nl_def dq_def)
  show ?thesis
    unfolding rx_peak_unc_def
    apply (subst re_search_lit_lazy [OF nl])
    using assms apply (simp del: rx_match.simps(2) add: rx_steps scalar_tail Suc_le_eq)
    done
qed

lemma name_match:
  assumes "nm \<noteq> []" "CHR ''<'' \<notin> set nm" "nl \<notin> set nm"
  shows "re_search rx_name (name_elem nm) = Some [nm]"
proof -
  obtain c cs where nm: "nm = c # cs" using assms(1) by (cases nm) auto
  have c: "c \<noteq> nl" "CHR ''<'' \<notin> set cs" "nl \<notin> set cs" using assms nm by auto
  have "rx_match rx_name [] (name_elem nm) = Some [nm]"
    unfolding rx_name_def name_elem_def nm
    using c lazy_cap_skip [OF c(2,3), of "''/name>''" "[]" "[]" "[c]" "''</name>''"]
    by simp
  then show ?thesis by (rule re_search_hit)
qed

lemma scalar_units_unc_peak_fields:
  "scalar_units_unc_peak u x n v =
     ''<scalar'' @ '' units='' @ dq # u @ dq # '' uncertainty='' @ dq # x @ dq
       # '' peak='' @ dq # n @ dq # ''>'' @ v @ ''</scalar>''"
  by (simp add: scalar_units_unc_peak_def attr_def)

lemma scalar_units_peak_unc_fields:
  "scalar_units_peak_unc u x n v =
     ''<scalar'' @ '' units='' @ dq # u @ dq # '' peak='' @ dq # n @ dq
       # '' uncertainty='' @ dq # x @ dq # ''>'' @ v @ ''</scalar>''"
  by (simp add: scalar_units_peak_unc_def attr_def)

lemma scalar_unc_peak_fields:
  "scalar_unc_peak x n v =
     ''<scalar'' @ '' uncertainty='' @ dq # x @ dq # '' peak='' @ dq # n @ dq
       # ''>'' @ v @ ''</scalar>''"
  by (simp add: scalar_unc_peak_def attr_def)

lemma scalar_peak_unc_fields:
  "scalar_peak_unc x n v =
     ''<scalar'' @ '' peak='' @ dq # n @ dq # '' uncertainty='' @ dq # x @ dq
       # ''>'' @ v @ ''</scalar>''"
  by (simp add: scalar_peak_unc_def attr_def)

lemma key_fields:
  "dq \<notin> set '' units=''" "nl \<notin> set '' units=''"
  "dq \<notin> set '' uncertainty=''" "nl \<notin> set '' uncertainty=''"
  "dq \<notin> set '' peak=''" "nl \<notin> set '' peak=''"
  "suffix ''units='' '' units=''" "suffix ''uncertainty='' '' uncertainty=''"
  "suffix ''peak='' '' peak=''" "\<not> suffix ''uncertainty='' '' peak=''"
  by (simp_all add: dq_def nl_def suffix_to_prefix)

lemma tail_fields:
  "value_text v \<Longrightarrow> dq \<notin> set (''>'' @ v @ ''</scalar>'')"
  "value_text v \<Longrightarrow> nl \<notin> set (''>'' @ v @ ''</scalar>'')"
  by (simp_all add: value_text_def dq_def nl_def)

lemma search_first_units:
  assumes "attr_text u" "attr_text x" "peak_text n" "value_text v"
  shows "re_search rx_units_unc_peak (scalar_units_unc_peak u x n v) = Some [u, x, n, v]"
  unfolding scalar_units_unc_peak_fields
  using assms
  by (intro units_unc_peak_match key_fields) (simp_all add: attr_text_def peak_text_def value_text_def)

lemma search_first_units_other:
  assumes "attr_text u" "attr_text x" "peak_text n" "value_text v"
  shows "re_search rx_units_unc_peak (scalar_units_peak_unc u x n v) = None"
  unfolding scalar_units_peak_unc_fields
  using assms tail_fields [OF assms(4)]
  by (intro units_unc_peak_no_match key_fields)
     (simp_all add: attr_text_def peak_text_def digits_no_nl digits_no_dq)

lemma search_second_units:
  assumes "attr_text u" "attr_text x" "peak_text n" "value_text v"
  shows "re_search rx_units_peak_unc (scalar_units_peak_unc u x n v) = Some [u, n, x, v]"
  unfolding scalar_units_peak_unc_fields
  using assms
  by (intro units_peak_unc_match key_fields) (simp_all add: attr_text_def peak_text_def value_text_def)

lemma search_first_plain:
  assumes "attr_text x" "peak_text n" "value_text v"
  shows "re_search rx_unc_peak (scalar_unc_peak x n v) = Some [x, n, v]"
  unfolding scalar_unc_peak_fields
  using assms
  by (intro unc_peak_match key_fields) (simp_all add: attr_text_def peak_text_def value_text_def)

lemma search_first_plain_other:
  assumes "attr_text x" "peak_text n" "value_text v"
  shows "re_search rx_unc_peak (scalar_peak_unc x n v) = None"
  unfolding scalar_peak_unc_fields
  using assms tail_fields [OF assms(3)]
  by (intro unc_peak_no_match key_fields)
     (simp_all add: attr_text_def peak_text_def digits_no_nl digits_no_dq)

lemma search_second_plain:
  assumes "attr_text x" "peak_text n" "value_text v"
  shows "re_search rx_peak_unc (scalar_peak_unc x n v) = Some [n, x, v]"
  unfolding scalar_peak_unc_fields
  using assms
  by (intro peak_unc_match key_fields) (simp_all add: attr_text_def peak_text_def value_text_def)


lemma float_of_string_error: "float_of_string s = Inl e \<Longrightarrow> e = ValueError"
  by (auto simp: float_of_string_def parse_decimal_def Let_def
      split: if_splits prod.splits option.splits list.splits)

lemma int_of_digits_peak: "peak_text n \<Longrightarrow> int_of_digits n = Inr (digits_value n)"
  by (simp add: peak_text_def int_of_digits_def)

lemma scalar_with_units_forms:
  assumes "attr_text u" "attr_text x" "peak_text n" "value_text v"
    and "sc = scalar_units_unc_peak u x n v \<or> sc = scalar_units_peak_unc u x n v"
  shows "scalar_with_units sc =
           (case float_of_string x of Inl e \<Rightarrow> Inl ValueError
            | Inr uncertainty \<Rightarrow> Inr (Some (u, uncertainty, digits_value n, strip v)))"
  using assms(5)
proof
  assume "sc = scalar_units_unc_peak u x n v"
  then show ?thesis
    using search_first_units [OF assms(1-4)] int_of_digits_peak [OF assms(3)]
    by (auto simp: scalar_with_units_def split: sum.splits dest: float_of_string_error)
next
  assume "sc = scalar_units_peak_unc u x n v"
  then show ?thesis
    using search_first_units_other [OF assms(1-4)] search_second_units [OF assms(1-4)]
      int_of_digits_peak [OF assms(3)]
    by (auto simp: scalar_with_units_def split: sum.splits dest: float_of_string_error)
qed

lemma scalar_without_units_forms:
  assumes "attr_text x" "peak_text n" "value_text v"
    and "sc = scalar_unc_peak x n v \<or> sc = scalar_peak_unc x n v"
  shows "scalar_without_units sc =
           (case float_of_string x of Inl e \<Rightarrow> Inl ValueError
            | Inr uncertainty \<Rightarrow> Inr (Some (uncertainty, digits_value n, strip v)))"
  using assms(4)
proof
  assume "sc = scalar_unc_peak x n v"
  then show ?thesis
    using search_first_plain [OF assms(1-3)] int_of_digits_peak [OF assms(2)]
    by (auto simp: scalar_without_units_def split: sum.splits dest: float_of_string_error)
next
  assume "sc = scalar_peak_unc x n v"
  then show ?thesis
    using search_first_plain_other [OF assms(1-3)] search_second_plain [OF assms(1-3)]
      int_of_digits_peak [OF assms(2)]
    by (auto simp: scalar_without_units_def split: sum.splits dest: float_of_string_error)
qed

lemma name_search: "name_text nm \<Longrightarrow> re_search rx_name (name_elem nm) = Some [nm]"
  by (simp add: name_text_def name_match)

lemma contains_skip:
  "c \<notin> set g \<Longrightarrow> contains (c # l) (g @ s) = contains (c # l) s"
  by (induction g) auto

lemma prefix_delim2:
  "d \<notin> set l0 \<Longrightarrow> d \<notin> set g \<Longrightarrow>
   prefix (l0 @ d # l1) (g @ d # rest) \<longleftrightarrow> l0 = g \<and> prefix l1 rest"
proof (induction l0 arbitrary: g)
  case Nil
  then show ?case by (cases g) auto
next
  case (Cons a l0)
  then show ?case by (cases g) auto
qed

lemma contains_pdi_name:
  assumes "name_text nm"
  shows "contains ''<name>Mw/Mn</name>'' (name_elem nm) \<longleftrightarrow> nm = ''Mw/Mn''"
proof -
  have lt: "CHR ''<'' \<notin> set nm" using assms by (simp add: name_text_def)
  have "prefix (''Mw/Mn'' @ CHR ''<'' # ''/name>'') (nm @ CHR ''<'' # ''/name>'')
          \<longleftrightarrow> ''Mw/Mn'' = nm \<and> prefix ''/name>'' ''/name>''"
    by (rule prefix_delim2) (use lt in simp_all)
  moreover have "\<not> contains ''<name>Mw/Mn</name>'' (nm @ ''</name>'')"
    using contains_skip [OF lt, of "''name>Mw/Mn</name>''" "''</name>''"] by simp
  ultimately show ?thesis by (auto simp: name_elem_def)
qed

lemma tag_dispatch:
  "contains (result_tag ''molar mass'') (result_tag ''molar mass'')"
  "\<not> contains (result_tag ''molar mass'') (result_tag ''polydispersity'')"
  "contains (result_tag ''polydispersity'') (result_tag ''polydispersity'')"
  "\<not> contains (result_tag ''molar mass'') (result_tag ''rms radius'')"
  "\<not> contains (result_tag ''polydispersity'') (result_tag ''rms radius'')"
  "contains (result_tag ''rms radius'') (result_tag ''rms radius'')"
  by (simp_all add: result_tag_def dq_def)

text \<open>The loop body on a well-formed block.\<close>

lemma scan_line_block:
  assumes "block_at lines i ty nm u x n v"
  shows "scan_line lines i T =
           (if recorded ty nm then
              (case float_of_string x of Inl e \<Rightarrow> Inl ValueError
               | Inr uncertainty \<Rightarrow>
                   record_value T nm (stored_units ty u) uncertainty (digits_value n) (strip v))
            else Inr T)"
proof -
  from assms have len: "i + 1 < length lines" "i + 2 < length lines"
    and tag: "strip (lines ! i) = result_tag ty"
    and name: "strip (lines ! (i + 1)) = name_elem nm"
    and sc: "strip (lines ! (i + 2)) \<in> set (scalar_forms ty u x n v)"
    and wf: "name_text nm" "attr_text u" "attr_text x" "peak_text n" "value_text v"
    and ty: "ty = ''molar mass'' \<or> ty = ''polydispersity'' \<or> ty = ''rms radius''"
    by (simp_all add: block_at_def)
  from ty show ?thesis
  proof (elim disjE)
    assume t: "ty = ''molar mass''"
    with sc have "strip (lines ! (i + 2)) = scalar_units_unc_peak u x n v
        \<or> strip (lines ! (i + 2)) = scalar_units_peak_unc u x n v"
      by (auto simp: scalar_forms_def)
    from scalar_with_units_forms [OF wf(2-5) this] t tag name len name_search [OF wf(1)]
    show ?thesis
      by (simp add: scan_line_def tag_dispatch molar_mass_block_def recorded_def stored_units_def
          split: sum.splits)
  next
    assume t: "ty = ''polydispersity''"
    with sc have "strip (lines ! (i + 2)) = scalar_unc_peak x n v
        \<or> strip (lines ! (i + 2)) = scalar_peak_unc x n v"
      by (auto simp: scalar_forms_def)
    from scalar_without_units_forms [OF wf(3-5) this] t tag name len contains_pdi_name [OF wf(1)]
    show ?thesis
      by (simp add: scan_line_def tag_dispatch polydispersity_block_def recorded_def
          stored_units_def split: sum.splits)
  next
    assume t: "ty = ''rms radius''"
    with sc have "strip (lines ! (i + 2)) = scalar_units_unc_peak u x n v
        \<or> strip (lines ! (i + 2)) = scalar_units_peak_unc u x n v"
      by (auto simp: scalar_forms_def)
    from scalar_with_units_forms [OF wf(2-5) this] t tag name len name_search [OF wf(1)]
    show ?thesis
      by (simp add: scan_line_def tag_dispatch rms_radius_block_def recorded_def stored_units_def
          split: sum.splits)
  qed
qed

lemmas float_eval = float_of_string_def float_isspace_def split_sign_def to_lower_def
  parse_decimal_def parse_exponent_def is_digit_def digits_value_def digit_val_def pow10i_def
  round_double_def floor_log2_def pow2i_def round_half_even_def bit_length.simps Let_def
  float_div_def is_zero_def float_of_nat_def dyadic_def reduce.simps signed_def pct_of_def

lemma float_sentinels:
  "float_of_string ''n/a'' = Inl ValueError" "float_of_string ''~Invalid'' = Inl ValueError"
  by (simp_all add: float_eval)


lemma record_value_ok:
  assumes "float_of_string value_str = Inr value" and "\<not> is_zero value"
  shows "record_value T nm u uncertainty p value_str =
           Inr (store_measurement T p nm
                  \<lparr>val = value, units = u, uncertainty_pct = pct_of uncertainty value\<rparr>)"
proof -
  have "value_str \<noteq> ''n/a''" "value_str \<noteq> ''~Invalid''"
    using assms(1) float_sentinels by auto
  then show ?thesis using assms by (simp add: record_value_def float_div_def pct_of_def)
qed

lemma record_value_zero:
  assumes "float_of_string value_str = Inr value" and "is_zero value"
  shows "record_value T nm u uncertainty p value_str = Inl ZeroDivisionError"
proof -
  have "value_str \<noteq> ''n/a''" "value_str \<noteq> ''~Invalid''"
    using assms(1) float_sentinels by auto
  then show ?thesis using assms by (simp add: record_value_def float_div_def)
qed

lemma record_value_not_numeric:
  assumes "float_of_string value_str = Inl e"
    and "value_str \<noteq> ''n/a''" and "value_str \<noteq> ''~Invalid''"
  shows "record_value T nm u uncertainty p value_str = Inl ValueError"
  using assms float_of_string_error [OF assms(1)] by (simp add: record_value_def)


subsection \<open>The table\<close>



subsection \<open>The loop\<close>

lemma scan_from_append:
  "scan_from lines (a @ b) T =
     (case scan_from lines a T of Inl e \<Rightarrow> Inl e | Inr T' \<Rightarrow> scan_from lines b T')"
  by (induction a arbitrary: T) (simp_all split: sum.splits)

lemma scan_from_raises:
  assumes "\<And>T. \<exists>e. scan_line lines i T = Inl e" and "i \<in> set idxs"
  shows "\<exists>e. scan_from lines idxs T = Inl e"
  using assms(2)
proof (induction idxs arbitrary: T)
  case Nil
  then show ?case by simp
next
  case (Cons j idxs)
  show ?case
  proof (cases "scan_line lines j T")
    case (Inl e)
    then show ?thesis by simp
  next
    case (Inr T')
    show ?thesis
    proof (cases "j = i")
      case True
      with assms(1) [of T] Inr show ?thesis by auto
    next
      case False
      with Cons.prems have "i \<in> set idxs" by simp
      from Cons.IH [OF this, of T'] Inr show ?thesis by simp
    qed
  qed
qed

lemma extract_raises:
  assumes "\<And>T. \<exists>e. scan_line (split_nl xml_content) i T = Inl e"
    and "i < length (split_nl xml_content)"
  shows "extract_peak_results xml_content = []"
proof -
  have "i \<in> set [0..<length (split_nl xml_content)]" using assms(2) by simp
  from scan_from_raises [OF assms(1) this, of "[]"]
  show ?thesis by (auto simp: extract_peak_results_def scan_document_def Let_def)
qed

lemma block_raises_zero:
  assumes "block_at lines i ty nm u x n v" "recorded ty nm"
    and "float_of_string (strip v) = Inr z" "is_zero z"
  shows "\<exists>e. scan_line lines i T = Inl e"
  using assms(2) record_value_zero [OF assms(3,4)]
  by (simp add: scan_line_block [OF assms(1)] split: sum.splits)

lemma block_raises_not_numeric:
  assumes "block_at lines i ty nm u x n v" "recorded ty nm"
    and "float_of_string (strip v) = Inl e" "strip v \<noteq> ''n/a''" "strip v \<noteq> ''~Invalid''"
  shows "\<exists>e. scan_line lines i T = Inl e"
  using assms(2) record_value_not_numeric [OF assms(3,4,5)]
  by (simp add: scan_line_block [OF assms(1)] split: sum.splits)

lemma block_index: "block_at lines i ty nm u x n v \<Longrightarrow> i < length lines"
  by (simp add: block_at_def)

lemma split_nl_line: "nl \<notin> set l \<Longrightarrow> split_nl l = [l]"
  by (induction l) auto

lemma split_nl_append: "nl \<notin> set l \<Longrightarrow> split_nl (l @ nl # rest) = l # split_nl rest"
  by (induction l) (auto simp: split_nl_line)

lemma split_join:
  "ls \<noteq> [] \<Longrightarrow> \<forall>l \<in> set ls. nl \<notin> set l \<Longrightarrow> split_nl (join_nl ls) = ls"
  by (induction ls rule: join_nl.induct) (simp_all add: split_nl_line split_nl_append)

lemmas doc_eval = block_lines_def mn_block_def mn_block_other_order_def mw_block_def mz_block_def
  pdi_block_def radius_block_def result_tag_def name_elem_def attr_def
  scalar_units_unc_peak_def scalar_units_peak_unc_def scalar_unc_peak_def scalar_peak_unc_def
  dq_def nl_def

lemmas block_eval = block_at_def scalar_forms_def strip_def py_isspace_def name_text_def
  attr_text_def peak_text_def value_text_def is_digit_def int_max_str_digits_def

lemma float_examples:
  "float_of_string ''300'' = Inr (Fin False 300 0)"
  "float_of_string ''600'' = Inr (Fin False 600 0)"
  "float_of_string ''15000'' = Inr (Fin False 15000 0)"
  "float_of_string ''30000'' = Inr (Fin False 30000 0)"
  "float_of_string ''0'' = Inr (Fin False 0 0)"
  "float_of_string ''abc'' = Inl ValueError"
  by (simp_all add: float_eval)

lemma pct_examples:
  "pct_of (Fin False 300 0) (Fin False 15000 0) = Fin False 2 0"
  "pct_of (Fin False 600 0) (Fin False 30000 0) = Fin False 2 0"
  by (simp_all add: float_eval)



lemma scan_line_recorded:
  assumes "block_at lines i ty nm u x n v" and "recorded ty nm"
    and "float_of_string x = Inr uncertainty"
    and "float_of_string (strip v) = Inr value" and "\<not> is_zero value"
  shows "scan_line lines i T =
           Inr (store_measurement T (digits_value n) nm
                  \<lparr>val = value, units = stored_units ty u,
                   uncertainty_pct = pct_of uncertainty value\<rparr>)"
  using assms(2,3) record_value_ok [OF assms(4,5)]
  by (simp add: scan_line_block [OF assms(1)])





lemma upt_split: "i < n \<Longrightarrow> [0..<n] = [0..<i] @ i # [Suc i..<n]"
  by (metis le_add1 less_imp_add_positive upt_add_eq_append upt_conv_Cons plus_nat.add_0)

lemma mn_block_at:
  "block_at (mn_block @ rest) 0 ''molar mass'' ''Mn'' ''g/mol'' ''300'' ''1'' ''15000''"
  by (simp add: doc_eval block_eval)


lemma example_lines:
  "\<forall>l \<in> set mn_block. nl \<notin> set l" "\<forall>l \<in> set (mw_block ''0''). nl \<notin> set l"
  "\<forall>l \<in> set (mw_block ''abc''). nl \<notin> set l" "\<forall>l \<in> set (mw_block ''30000''). nl \<notin> set l"
  "\<forall>l \<in> set pdi_block. nl \<notin> set l" "\<forall>l \<in> set mz_block. nl \<notin> set l"
  by (simp_all add: doc_eval)

lemma example_mn_scan:
  "scan_line (mn_block @ rest) 0 [] = Inr [(1, [(''Mn'', mn_measurement)])]"
  using scan_line_block [OF mn_block_at, of rest "[]"]
  by (simp add: recorded_def stored_units_def float_examples record_value_ok is_zero_def
        pct_examples digits_value_def digit_val_def store_measurement_def strip_def py_isspace_def
        mn_measurement_def)

lemma example_no_tag:
  "scan_line (mn_block @ rest) (Suc 0) T = Inr T"
  "scan_line (mn_block @ rest) (Suc (Suc 0)) T = Inr T"
  by (simp_all add: scan_line_def doc_eval strip_def py_isspace_def)

lemma example_mn_prefix:
  "scan_from (mn_block @ rest) [0..<3] [] = Inr [(1, [(''Mn'', mn_measurement)])]"
  by (simp add: upt_conv_Cons example_mn_scan example_no_tag)

lemma example_mn_extract:
  "extract_peak_results (join_nl mn_block) = [(1, [(''Mn'', mn_measurement)])]"
proof -
  have "split_nl (join_nl mn_block) = mn_block"
    by (rule split_join) (simp_all add: example_lines, simp add: mn_block_def block_lines_def)
  moreover have "length mn_block = 3" by (simp add: mn_block_def block_lines_def)
  ultimately show ?thesis
    using example_mn_prefix [of "[]"]
    by (simp add: extract_peak_results_def scan_document_def)
qed

text \<open>C1\<close>

theorem zero_value_empties_table:
  assumes "block_at (split_nl xml_content) i ty nm u x n v" and "recorded ty nm"
    and "float_of_string (strip v) = Inr z" and "is_zero z"
  shows "extract_peak_results xml_content = []"
proof (rule extract_raises)
  show "\<exists>e. scan_line (split_nl xml_content) i T = Inl e" for T
    using assms by (rule block_raises_zero)
  show "i < length (split_nl xml_content)" using assms(1) by (rule block_index)
qed

lemma mw_block_at:
  "block_at (mn_block @ mw_block v) 3 ''molar mass'' ''Mw'' ''g/mol'' ''600'' ''1'' v
     \<longleftrightarrow> value_text v"
  by (simp add: doc_eval block_eval)

theorem zero_value_counterexample:
  "extract_peak_results (join_nl (mn_block @ mw_block ''0'')) = []
   \<and> extract_peak_results (join_nl mn_block) = [(1, [(''Mn'', mn_measurement)])]"
proof -
  have sp: "split_nl (join_nl (mn_block @ mw_block ''0'')) = mn_block @ mw_block ''0''"
    by (rule split_join) (simp_all add: example_lines ball_Un, simp add: mn_block_def block_lines_def)
  have b: "block_at (split_nl (join_nl (mn_block @ mw_block ''0''))) 3
             ''molar mass'' ''Mw'' ''g/mol'' ''600'' ''1'' ''0''"
    unfolding sp by (simp add: mw_block_at value_text_def dq_def nl_def)
  have "extract_peak_results (join_nl (mn_block @ mw_block ''0'')) = []"
  proof (rule extract_raises)
    show "\<exists>e. scan_line (split_nl (join_nl (mn_block @ mw_block ''0''))) 3 T = Inl e" for T
      using b by (rule block_raises_zero [where z = "Fin False 0 0"])
         (simp_all add: recorded_def strip_def py_isspace_def float_examples is_zero_def)
    show "3 < length (split_nl (join_nl (mn_block @ mw_block ''0'')))"
      using b by (rule block_index)
  qed
  with example_mn_extract show ?thesis by simp
qed



theorem zero_value_empties_table_witness:
  "block_at (split_nl (join_nl (mn_block @ pdi_zero))) 3 ''polydispersity'' ''Mw/Mn''
     [] ''0.04'' ''1'' ''0.0''
   \<and> float_of_string (strip ''0.0'') = Inr (Fin False 0 0)
   \<and> extract_peak_results (join_nl (mn_block @ pdi_zero)) = []"
proof -
  have sp: "split_nl (join_nl (mn_block @ pdi_zero)) = mn_block @ pdi_zero"
    by (rule split_join)
       (simp_all add: example_lines ball_Un, simp_all add: doc_eval pdi_zero_def)
  have b: "block_at (split_nl (join_nl (mn_block @ pdi_zero))) 3 ''polydispersity'' ''Mw/Mn''
     [] ''0.04'' ''1'' ''0.0''"
    unfolding sp by (simp add: doc_eval block_eval pdi_zero_def)
  have r: "recorded ''polydispersity'' ''Mw/Mn''" by (simp add: recorded_def)
  have f: "float_of_string (strip ''0.0'') = Inr (Fin False 0 0)"
    by (simp add: strip_def py_isspace_def float_eval)
  have z: "is_zero (Fin False 0 0)" by (simp add: is_zero_def)
  from b f zero_value_empties_table [OF b r f z] show ?thesis by simp
qed

text \<open>C2\<close>

theorem non_numeric_value_aborts:
  "extract_peak_results (join_nl (mn_block @ mw_block ''abc'')) = []
   \<and> extract_peak_results (join_nl mn_block) = [(1, [(''Mn'', mn_measurement)])]"
proof -
  have sp: "split_nl (join_nl (mn_block @ mw_block ''abc'')) = mn_block @ mw_block ''abc''"
    by (rule split_join) (simp_all add: example_lines ball_Un, simp add: mn_block_def block_lines_def)
  have b: "block_at (split_nl (join_nl (mn_block @ mw_block ''abc''))) 3
             ''molar mass'' ''Mw'' ''g/mol'' ''600'' ''1'' ''abc''"
    unfolding sp by (simp add: mw_block_at value_text_def dq_def nl_def)
  have "extract_peak_results (join_nl (mn_block @ mw_block ''abc'')) = []"
  proof (rule extract_raises)
    show "\<exists>e. scan_line (split_nl (join_nl (mn_block @ mw_block ''abc''))) 3 T = Inl e" for T
      using b by (rule block_raises_not_numeric [where e = ValueError])
         (simp_all add: recorded_def strip_def py_isspace_def float_examples)
    show "3 < length (split_nl (join_nl (mn_block @ mw_block ''abc'')))"
      using b by (rule block_index)
  qed
  with example_mn_extract show ?thesis by simp
qed





lemma strip_examples:
  "strip ''15000'' = ''15000''" "strip ''30000'' = ''30000''" "strip ''45000'' = ''45000''"
  "strip ''2.0'' = ''2.0''" "strip ''25'' = ''25''" "strip ''0'' = ''0''"
  by (simp_all add: strip_def py_isspace_def)

lemma digits_examples: "digits_value ''1'' = 1" "digits_value ''2'' = 2"
  by (simp_all add: digits_value_def digit_val_def)







lemma example_two_split:
  "split_nl (join_nl (mn_block @ mw_block v)) = mn_block @ mw_block v" if "nl \<notin> set v"
  by (rule split_join) (use that in \<open>simp_all add: doc_eval\<close>)






lemma float_examples2:
  "float_of_string ''1'' = Inr (Fin False 1 0)"
  "float_of_string ''25'' = Inr (Fin False 25 0)"
  "float_of_string ''0.04'' = Inr (Fin False 5764607523034235 57)"
  "float_of_string ''2.0'' = Inr (Fin False 2 0)"
  "float_of_string ''900'' = Inr (Fin False 900 0)"
  "float_of_string ''45000'' = Inr (Fin False 45000 0)"
  by (simp_all add: float_eval)

lemma pct_examples2:
  "pct_of (Fin False 1 0) (Fin False 25 0) = Fin False 4 0"
  "pct_of (Fin False 5764607523034235 57) (Fin False 2 0) = Fin False 2 0"
  "pct_of (Fin False 900 0) (Fin False 45000 0) = Fin False 2 0"
  "pct_of (Fin False 300 0) (Fin False 15000 0) = Fin False 2 0"
  by (simp_all add: float_eval)


text \<open>C9\<close>

theorem exception_returns_empty_table:
  assumes "i < length (split_nl xml_content)"
    and "scan_from (split_nl xml_content) [0..<i] [] = Inr T"
    and "scan_line (split_nl xml_content) i T = Inl e"
  shows "scan_document xml_content = Inl e \<and> extract_peak_results xml_content = []"
proof -
  have "scan_document xml_content = Inl e"
    using assms(2,3) upt_split [OF assms(1)]
    by (simp add: scan_document_def Let_def scan_from_append)
  then show ?thesis by (simp add: extract_peak_results_def)
qed

theorem exception_returns_empty_table_witness:
  "scan_from (split_nl (join_nl (mn_block @ mw_block ''0''))) [0..<3] []
     = Inr [(1, [(''Mn'', mn_measurement)])]
   \<and> scan_line (split_nl (join_nl (mn_block @ mw_block ''0''))) 3 [(1, [(''Mn'', mn_measurement)])]
     = Inl ZeroDivisionError
   \<and> extract_peak_results (join_nl (mn_block @ mw_block ''0'')) = []"
proof -
  let ?doc = "join_nl (mn_block @ mw_block ''0'')"
  have sp: "split_nl ?doc = mn_block @ mw_block ''0''"
    by (simp add: example_two_split nl_def)
  have len: "3 < length (split_nl ?doc)" unfolding sp by (simp add: doc_eval)
  have pre: "scan_from (split_nl ?doc) [0..<3] [] = Inr [(1, [(''Mn'', mn_measurement)])]"
    unfolding sp by (rule example_mn_prefix)
  have b: "block_at (split_nl ?doc) 3 ''molar mass'' ''Mw'' ''g/mol'' ''600'' ''1'' ''0''"
    unfolding sp by (simp add: mw_block_at value_text_def dq_def nl_def)
  have z: "scan_line (split_nl ?doc) 3 [(1, [(''Mn'', mn_measurement)])] = Inl ZeroDivisionError"
    using record_value_zero [of "strip ''0''" "Fin False 0 0"]
    by (simp add: scan_line_block [OF b] recorded_def float_examples strip_examples is_zero_def)
  from exception_returns_empty_table [OF len pre z] pre z show ?thesis by simp
qed


lemma mz_block_at:
  "block_at mz_block 0 ''molar mass'' ''Mz'' ''g/mol'' ''900'' ''1'' ''45000''"
  by (simp add: doc_eval block_eval)


text \<open>C6\<close>

lemma example_mz_extract:
  "extract_peak_results (join_nl mz_block) = [(1, [(''Mz'', mz_measurement)])]"
proof -
  have sp: "split_nl (join_nl mz_block) = mz_block"
    by (rule split_join) (simp_all add: example_lines, simp add: mz_block_def block_lines_def)
  have len: "length mz_block = 3" by (simp add: mz_block_def block_lines_def)
  have 0: "scan_line mz_block 0 [] = Inr [(1, [(''Mz'', mz_measurement)])]"
    using scan_line_recorded [OF mz_block_at, of "Fin False 900 0" "Fin False 45000 0" "[]"]
    by (simp add: recorded_def float_examples2 strip_examples is_zero_def pct_examples2
        digits_examples stored_units_def store_measurement_def mz_measurement_def)
  have 1: "scan_line mz_block (Suc 0) T = Inr T" "scan_line mz_block (Suc (Suc 0)) T = Inr T" for T
    by (simp_all add: scan_line_def doc_eval strip_def py_isspace_def)
  show ?thesis
    by (simp add: extract_peak_results_def scan_document_def sp len upt_conv_Cons 0 1)
qed

theorem mass_heading_without_lines:
  "extract_peak_results (join_nl mz_block) = [(1, [(''Mz'', mz_measurement)])]
   \<and> summary_lines (extract_peak_results (join_nl mz_block))
       = [replicate 50 (CHR ''=''), title_line, replicate 50 (CHR ''=''),
          nl # ''Peak 1'', peak_divider, mass_header, [], []]"
  by (simp add: example_mz_extract summary_lines_def peak_section_def moment_line_def
      peak_header_def dec_digits.simps digit_char_def)

lemma float_special_examples: "float_of_string ''-InFiNiTy'' = Inr (Inf True)" "float_of_string ''NaN'' = Inr NaN"
  "float_of_string ''1E2'' = Inr (Fin False 100 0)"
  by (simp_all add: float_eval)

end
